theory Spec2Isabelle
  imports Main
begin

section \<open>Permission rule engine (services/permission\_rules\_service.py)\<close>

text \<open>
  Strings are Python \<open>str\<close> values. A tool input is the JSON object sent with a tool call;
  the members read by the code modelled here (\<open>file_path\<close>, \<open>path\<close>, \<open>command\<close>) are
  strings, so the object is a finite map from member names to strings and \<open>d.get(k, default)\<close>
  is \<open>get_or\<close>.
\<close>

type_synonym tool_input = "string \<rightharpoonup> string"

definition get_or :: "tool_input \<Rightarrow> string \<Rightarrow> string \<Rightarrow> string" where
  "get_or d k dflt = (case d k of None \<Rightarrow> dflt | Some v \<Rightarrow> v)"

text \<open>
  The functions of the Python standard library that the rule engine calls are parameters of
  the model: \<open>fnmatch.fnmatch(name, pat)\<close>, \<open>shlex.split(s)\<close> (\<open>None\<close> stands for the
  \<open>ValueError\<close> it raises on unbalanced quotes) and \<open>str.strip()\<close>. Every theorem below
  holds for every choice of these three functions.
\<close>

record pylib =
  fnmatch :: "string \<Rightarrow> string \<Rightarrow> bool"
  shlex_split :: "string \<Rightarrow> string list option"
  strip :: "string \<Rightarrow> string"

text \<open>\<open>os.path.basename\<close> on POSIX: what follows the last slash.\<close>

fun basename :: "string \<Rightarrow> string" where
  "basename [] = []"
| "basename (c # cs) = (if CHR ''/'' \<in> set cs then basename cs
                        else if c = CHR ''/'' then cs else c # cs)"

definition startswith :: "string \<Rightarrow> string \<Rightarrow> bool" where
  "startswith s p = (take (length p) s = p)"

definition DANGEROUS :: "string set" where
  "DANGEROUS = {''rm'', ''rmdir'', ''sudo'', ''su'', ''curl'', ''wget'', ''pip'', ''npm'', ''brew'',
     ''kill'', ''killall'', ''pkill'', ''dd'', ''mkfs'', ''chmod'', ''chown'', ''shutdown''}"

text \<open>
  A rule is a JSON object read with \<open>rule.get\<close>; a member that is absent reads as
  \<open>None\<close>, which equals no string.
\<close>

record rule =
  rule_id :: "string option"
  rule_tool :: "string option"
  rule_match_type :: "string option"
  rule_pattern :: "string option"
  rule_action :: "string option"

definition mk_rule :: "string \<Rightarrow> string \<Rightarrow> string \<Rightarrow> string \<Rightarrow> rule" where
  "mk_rule t m p a = \<lparr>rule_id = None, rule_tool = Some t, rule_match_type = Some m,
                       rule_pattern = Some p, rule_action = Some a\<rparr>"

definition DEFAULT_RULES :: "rule list" where
  "DEFAULT_RULES =
    [mk_rule ''Write'' ''glob'' ''**/*.md'' ''allow'',
     mk_rule ''Edit'' ''glob'' ''**/*.md'' ''allow'',
     mk_rule ''MultiEdit'' ''glob'' ''**/*.md'' ''allow'',
     mk_rule ''Bash'' ''prefix'' ''grep'' ''allow'',
     mk_rule ''Bash'' ''prefix'' ''git'' ''allow'',
     mk_rule ''Bash'' ''prefix'' ''ls'' ''allow'',
     mk_rule ''Bash'' ''prefix'' ''find'' ''allow'',
     mk_rule ''Bash'' ''prefix'' ''cat'' ''allow'',
     mk_rule ''Bash'' ''prefix'' ''wc'' ''allow'',
     mk_rule ''Bash'' ''prefix'' ''head'' ''allow'',
     mk_rule ''Bash'' ''prefix'' ''tail'' ''allow'',
     mk_rule ''Bash'' ''prefix'' ''echo'' ''allow'',
     mk_rule ''Bash'' ''prefix'' ''pwd'' ''allow'',
     mk_rule ''Bash'' ''prefix'' ''python'' ''allow'',
     mk_rule ''Bash'' ''prefix'' ''sort'' ''allow'',
     mk_rule ''Bash'' ''prefix'' ''uniq'' ''allow'',
     mk_rule ''Bash'' ''prefix'' ''diff'' ''allow'',
     mk_rule ''Bash'' ''prefix'' ''rm'' ''deny'',
     mk_rule ''Bash'' ''prefix'' ''rmdir'' ''deny'',
     mk_rule ''Bash'' ''prefix'' ''sudo'' ''deny'',
     mk_rule ''Bash'' ''prefix'' ''su'' ''deny'',
     mk_rule ''Bash'' ''prefix'' ''curl'' ''deny'',
     mk_rule ''Bash'' ''prefix'' ''wget'' ''deny'',
     mk_rule ''Bash'' ''prefix'' ''pip'' ''deny'',
     mk_rule ''Bash'' ''prefix'' ''npm'' ''deny'',
     mk_rule ''Bash'' ''prefix'' ''brew'' ''deny'',
     mk_rule ''Bash'' ''prefix'' ''kill'' ''deny'',
     mk_rule ''Bash'' ''prefix'' ''killall'' ''deny'',
     mk_rule ''Bash'' ''prefix'' ''dd'' ''deny'',
     mk_rule ''Bash'' ''prefix'' ''chmod'' ''deny'',
     mk_rule ''Bash'' ''prefix'' ''chown'' ''deny'']"

text \<open>\<open>suggest_bash_pattern\<close>: the base command name, or \<open>None\<close> for a dangerous command or
  when parsing fails.\<close>

definition suggest_bash_pattern :: "pylib \<Rightarrow> string \<Rightarrow> string option" where
  "suggest_bash_pattern lib command0 =
     (let command = strip lib command0 in
      if command = [] then None
      else case shlex_split lib command of
             None \<Rightarrow> None
           | Some [] \<Rightarrow> None
           | Some (part0 # _) \<Rightarrow>
               (let base = basename part0 in
                if base \<in> DANGEROUS then None else Some base))"

text \<open>\<open>_matches\<close>: does one rule match the call.\<close>

definition matches :: "pylib \<Rightarrow> rule \<Rightarrow> string \<Rightarrow> tool_input \<Rightarrow> bool" where
  "matches lib r tool_name inp =
     (if rule_tool r \<noteq> Some tool_name then False
      else
        let match_type = rule_match_type r;
            pat = (case rule_pattern r of None \<Rightarrow> [] | Some p \<Rightarrow> p)
        in
        if match_type = Some ''glob'' then
          (let file_path = (case inp ''file_path'' of
                              None \<Rightarrow> get_or inp ''path'' []
                            | Some fp \<Rightarrow> if fp \<noteq> [] then fp else get_or inp ''path'' [])
           in
           if file_path = [] then False
           else if fnmatch lib file_path pat then True
           else if \<not> startswith file_path ''/'' then fnmatch lib (''/'' @ file_path) pat
           else False)
        else if match_type = Some ''prefix'' then
          (let command = get_or inp ''command'' [];
               base = (case suggest_bash_pattern lib command of
                         Some b \<Rightarrow> b
                       | None \<Rightarrow>
                           (case shlex_split lib (strip lib command) of
                              None \<Rightarrow> []
                            | Some [] \<Rightarrow> []
                            | Some (part0 # _) \<Rightarrow> basename part0))
           in base = pat)
        else False)"

text \<open>
  \<open>check\<close>: the outer loop runs over the actions \<open>("deny", "allow")\<close>, the inner loop over
  the rule list in its stored order; the first rule of the current action that matches
  returns that action.
\<close>

fun check_rules :: "pylib \<Rightarrow> string \<Rightarrow> rule list \<Rightarrow> string \<Rightarrow> tool_input \<Rightarrow> bool" where
  "check_rules lib act [] tool_name inp = False"
| "check_rules lib act (r # rs) tool_name inp =
     (if rule_action r \<noteq> Some act then check_rules lib act rs tool_name inp
      else if matches lib r tool_name inp then True
      else check_rules lib act rs tool_name inp)"

fun check_actions :: "pylib \<Rightarrow> string list \<Rightarrow> rule list \<Rightarrow> string \<Rightarrow> tool_input \<Rightarrow> string" where
  "check_actions lib [] rules tool_name inp = ''ask''"
| "check_actions lib (act # acts) rules tool_name inp =
     (if check_rules lib act rules tool_name inp then act
      else check_actions lib acts rules tool_name inp)"

definition check :: "pylib \<Rightarrow> rule list \<Rightarrow> string \<Rightarrow> tool_input \<Rightarrow> string" where
  "check lib rules tool_name inp = check_actions lib [''deny'', ''allow''] rules tool_name inp"

subsection \<open>An instance of the library parameters\<close>

text \<open>
  For evaluating the engine on concrete calls: \<open>str.strip\<close> on ASCII text, \<open>shlex.split\<close>
  in its default POSIX mode (whitespace splitting, no comments, no punctuation characters)
  and \<open>fnmatch\<close> on patterns built from literal characters, \<open>*\<close> and \<open>?\<close>.
\<close>

definition py_space :: "char \<Rightarrow> bool" where
  "py_space c = (c \<in> set [CHR 0x09, CHR 0x0A, CHR 0x0B, CHR 0x0C, CHR 0x0D,
                           CHR 0x1C, CHR 0x1D, CHR 0x1E, CHR 0x1F, CHR '' ''])"

definition ascii_strip :: "string \<Rightarrow> string" where
  "ascii_strip s = rev (dropWhile py_space (rev (dropWhile py_space s)))"

datatype lex_state = InSpace | InWord | InQuote char | InEscape

definition shlex_whitespace :: "char \<Rightarrow> bool" where
  "shlex_whitespace c = (c \<in> set [CHR '' '', CHR 0x09, CHR 0x0D, CHR 0x0A])"

definition shlex_quote :: "char \<Rightarrow> bool" where
  "shlex_quote c = (c = CHR 0x27 \<or> c = CHR 0x22)"

definition emit_token :: "string \<Rightarrow> bool \<Rightarrow> string list option \<Rightarrow> string list option" where
  "emit_token tok quoted rest =
     (if tok \<noteq> [] \<or> quoted then map_option (\<lambda>ts. tok # ts) rest else rest)"

text \<open>
  \<open>shlex.read_token\<close>, iterated until end of input: the lexer state, the state to return to
  after an escape, the token read so far and whether it had a quoted part.
\<close>

fun shlex_tokens :: "lex_state \<Rightarrow> lex_state \<Rightarrow> string \<Rightarrow> bool \<Rightarrow> string \<Rightarrow> string list option" where
  "shlex_tokens st esc tok quoted [] =
     (case st of
        InQuote q \<Rightarrow> None
      | InEscape \<Rightarrow> None
      | _ \<Rightarrow> emit_token tok quoted (Some []))"
| "shlex_tokens st esc tok quoted (c # cs) =
     (case st of
        InSpace \<Rightarrow>
          (if shlex_whitespace c then
             (if tok \<noteq> [] \<or> quoted then emit_token tok quoted (shlex_tokens InSpace InSpace [] False cs)
              else shlex_tokens InSpace esc tok quoted cs)
           else if c = CHR 0x5C then shlex_tokens InEscape InWord tok quoted cs
           else if shlex_quote c then shlex_tokens (InQuote c) esc tok quoted cs
           else shlex_tokens InWord esc [c] quoted cs)
      | InQuote q \<Rightarrow>
          (if c = q then shlex_tokens InWord esc tok True cs
           else if c = CHR 0x5C \<and> q = CHR 0x22 then shlex_tokens InEscape (InQuote q) tok True cs
           else shlex_tokens (InQuote q) esc (tok @ [c]) True cs)
      | InEscape \<Rightarrow>
          (case esc of
             InQuote q \<Rightarrow>
               (if c \<noteq> CHR 0x5C \<and> c \<noteq> q
                then shlex_tokens esc esc (tok @ [CHR 0x5C, c]) quoted cs
                else shlex_tokens esc esc (tok @ [c]) quoted cs)
           | _ \<Rightarrow> shlex_tokens esc esc (tok @ [c]) quoted cs)
      | InWord \<Rightarrow>
          (if shlex_whitespace c then
             (if tok \<noteq> [] \<or> quoted then emit_token tok quoted (shlex_tokens InSpace InSpace [] False cs)
              else shlex_tokens InSpace esc tok quoted cs)
           else if shlex_quote c then shlex_tokens (InQuote c) esc tok quoted cs
           else if c = CHR 0x5C then shlex_tokens InEscape InWord tok quoted cs
           else shlex_tokens InWord esc (tok @ [c]) quoted cs))"

definition posix_split :: "string \<Rightarrow> string list option" where
  "posix_split s = shlex_tokens InSpace InSpace [] False s"

fun glob_match :: "string \<Rightarrow> string \<Rightarrow> bool" where
  "glob_match [] [] = True"
| "glob_match [] (p # ps) = (p = CHR ''*'' \<and> glob_match [] ps)"
| "glob_match (c # cs) [] = False"
| "glob_match (c # cs) (p # ps) =
     (if p = CHR ''*'' then glob_match (c # cs) ps \<or> glob_match cs (p # ps)
      else (p = CHR ''?'' \<or> p = c) \<and> glob_match cs ps)"

definition ascii_lib :: pylib where
  "ascii_lib = \<lparr>fnmatch = glob_match, shlex_split = posix_split, strip = ascii_strip\<rparr>"

section \<open>Events and the provider's registries (agents/claude\_code\_provider.py)\<close>

text \<open>
  The event dictionaries that the approval controller hands to \<open>inject_event\<close>.
  The questions of a \<open>user_question\<close> are opaque here.
\<close>

datatype inj_event =
    PermissionRequest string string string string tool_input "string option"
      \<comment> \<open>request\_id, tool, path, description, input, always\_allow\_pattern\<close>
  | PermissionDecision string bool
      \<comment> \<open>request\_id, approved\<close>
  | UserQuestion string "string list"
      \<comment> \<open>request\_id, questions\<close>

text \<open>
  An item of the merged queue is a pair \<open>(kind, line)\<close>. The line of an \<open>inject\<close> item is
  \<open>json.dumps(event)\<close> of a dictionary, which is never the empty string; it is kept as
  the event itself.
\<close>

datatype qitem =
    Out string        \<comment> \<open>\<open>("out", line)\<close>\<close>
  | Err string        \<comment> \<open>\<open>("err", line)\<close>\<close>
  | OutEof            \<comment> \<open>\<open>("out_eof", None)\<close>\<close>
  | ErrEof            \<comment> \<open>\<open>("err_eof", None)\<close>\<close>
  | Cancel            \<comment> \<open>\<open>("cancel", None)\<close>\<close>
  | Inject inj_event  \<comment> \<open>\<open>("inject", json.dumps(event))\<close>\<close>

text \<open>
  The provider object: the resolved path of the CLI and its dictionaries keyed by chat id.
  \<open>stdin_map\<close> and \<open>process_map\<close> hold handles; only which chats have one is recorded.
  \<open>sessions_file\<close> tells whether a sessions file was configured.
\<close>

record provider =
  claude_cli :: string
  session_map :: "string \<rightharpoonup> string"
  code_folders :: "string \<rightharpoonup> string"
  inject_queues :: "string \<rightharpoonup> qitem list"
  stdin_map :: "string set"
  process_map :: "string set"
  cancelled_prompts :: "string \<rightharpoonup> string"
  sessions_file :: bool

definition get_code_folder :: "provider \<Rightarrow> string \<Rightarrow> string" where
  "get_code_folder P chat = (case code_folders P chat of None \<Rightarrow> [] | Some f \<Rightarrow> f)"

definition inject_event :: "provider \<Rightarrow> string \<Rightarrow> inj_event \<Rightarrow> bool \<times> provider" where
  "inject_event P chat ev =
     (case inject_queues P chat of
        None \<Rightarrow> (False, P)
      | Some q \<Rightarrow> (True, P\<lparr>inject_queues := (inject_queues P)(chat \<mapsto> q @ [Inject ev])\<rparr>))"

section \<open>Approval broker (controllers/approval\_controller.py)\<close>

text \<open>
  The three module-level dictionaries keyed by request id. A \<open>threading.Event\<close> is its
  flag. The handlers \<open>request\<close>, \<open>decide\<close>, \<open>question\<close> and \<open>answer\<close> are one
  transition of the registry each. \<open>wait\<close>, which blocks and then removes its entries one
  at a time while the other handlers run in threads of their own, is taken statement by
  statement.
\<close>

datatype pending_entry =
    PendingTool string string tool_input   \<comment> \<open>chat\_id, tool, input\<close>
  | PendingQuestion string "string list"   \<comment> \<open>chat\_id, questions\<close>

fun pending_chat_id :: "pending_entry \<Rightarrow> string" where
  "pending_chat_id (PendingTool c _ _) = c"
| "pending_chat_id (PendingQuestion c _) = c"

record broker =
  pending :: "string \<rightharpoonup> pending_entry"
  decisions :: "string \<rightharpoonup> string"
  events :: "string \<rightharpoonup> bool"

text \<open>
  A request body (\<open>request.get_json() or {}\<close>): its string members, and the members
  \<open>input\<close> and \<open>questions\<close>.
\<close>

record json_body =
  members :: "string \<rightharpoonup> string"
  input_member :: "tool_input option"
  questions_member :: "string list option"

datatype response =
    Ok_auto string        \<comment> \<open>200 \<open>{ok, request_id, auto: "allow"}\<close>\<close>
  | Ok_registered string  \<comment> \<open>200 \<open>{ok, request_id}\<close>\<close>
  | Ok_decision string    \<comment> \<open>200 \<open>{ok, decision}\<close>\<close>
  | Ok_answer             \<comment> \<open>200 \<open>{ok}\<close>\<close>
  | Decision string       \<comment> \<open>200 \<open>{decision}\<close>\<close>
  | Bad_request string    \<comment> \<open>400 \<open>{error}\<close>\<close>
  | Not_found string      \<comment> \<open>404 \<open>{error}\<close>\<close>

definition py_or :: "string \<Rightarrow> string \<Rightarrow> string" where
  "py_or a b = (if a \<noteq> [] then a else b)"

definition endswith :: "string \<Rightarrow> string \<Rightarrow> bool" where
  "endswith s suf = startswith (rev s) (rev suf)"

definition FILE_TOOLS :: "string set" where
  "FILE_TOOLS = {''Write'', ''Edit'', ''MultiEdit''}"

definition auto_allow :: "broker \<Rightarrow> string \<Rightarrow> broker" where
  "auto_allow B request_id =
     B\<lparr>decisions := (decisions B)(request_id \<mapsto> ''allow''),
       events := (events B)(request_id \<mapsto> True)\<rparr>"

definition always_allow_pattern :: "pylib \<Rightarrow> rule list option \<Rightarrow> string \<Rightarrow> tool_input \<Rightarrow> string option" where
  "always_allow_pattern lib rules tool_name inp =
     (case rules of
        None \<Rightarrow> None
      | Some _ \<Rightarrow>
          if tool_name = ''Bash'' then suggest_bash_pattern lib (get_or inp ''command'' [])
          else if tool_name \<in> FILE_TOOLS then
            (if endswith (get_or inp ''file_path'' (get_or inp ''path'' [])) ''.md''
             then Some ''**/*.md'' else None)
          else None)"

definition api_approval_request ::
  "pylib \<Rightarrow> rule list option \<Rightarrow> broker \<Rightarrow> provider \<Rightarrow> json_body \<Rightarrow> response \<times> broker \<times> provider" where
  "api_approval_request lib rules B P body =
     (let request_id = get_or (members body) ''request_id'' [];
          chat = get_or (members body) ''chat_id'' [];
          tool_name = get_or (members body) ''tool'' [];
          inp = (case input_member body of None \<Rightarrow> Map.empty | Some i \<Rightarrow> i)
      in
      if request_id = [] then (Bad_request ''request_id required'', B, P)
      else
        let B1 = B\<lparr>events := (events B)(request_id \<mapsto> False),
                   pending := (pending B)(request_id \<mapsto> PendingTool chat tool_name inp)\<rparr>
        in
        if (case rules of None \<Rightarrow> False | Some rs \<Rightarrow> check lib rs tool_name inp = ''allow'')
        then (Ok_auto request_id, auto_allow B1 request_id, P)
        else if tool_name \<in> FILE_TOOLS \<and>
                (let code_folder = get_code_folder P chat;
                     file_path = get_or inp ''file_path'' []
                 in code_folder \<noteq> [] \<and> file_path \<noteq> [] \<and> startswith file_path (code_folder @ ''/''))
        then (Ok_auto request_id, auto_allow B1 request_id, P)
        else
          let description =
                py_or (get_or inp ''command'' [])
                  (py_or (take 120 (get_or inp ''content'' []))
                     (py_or (take 80 (get_or inp ''old_string'' [])) []));
              path = get_or inp ''file_path'' (get_or inp ''path'' []);
              pat = always_allow_pattern lib rules tool_name inp;
              P1 = snd (inject_event P chat
                          (PermissionRequest request_id tool_name path description inp pat))
          in (Ok_registered request_id, B1, P1))"

text \<open>
  \<open>threading.Event.wait(timeout)\<close>: the caller stays blocked until the flag is set, at
  most \<open>timeout\<close> seconds. \<open>flag_at t\<close> tells whether the flag is set \<open>t\<close> seconds after
  the call; the result is the number of seconds the caller was blocked.
\<close>

definition ev_wait :: "nat \<Rightarrow> (nat \<Rightarrow> bool) \<Rightarrow> nat" where
  "ev_wait timeout flag_at = (case find flag_at [0..<timeout] of None \<Rightarrow> timeout | Some t \<Rightarrow> t)"

text \<open>
  \<open>api_approval_wait\<close> runs in a thread of its own beside the threads of the other handlers,
  and nothing in the module locks the registry. The handler looks up the signal, blocks on
  it, and then removes the decision, the signal and the pending entry with three separate
  \<open>pop\<close> calls. What the other threads do to the registry in the meantime is given by
  \<open>while_blocked\<close>, the registry \<open>t\<close> seconds after the handler was entered, and by
  what they make of the registry between the wake-up and the first \<open>pop\<close>, between the
  first and the second \<open>pop\<close>, and between the second and the third. The flag that the
  handler waits on is read from the entry of the request id, which holds the \<open>Event\<close>
  that the handler looked up for as long as the request id is not registered a second
  time.
\<close>

record others =
  while_blocked :: "nat \<Rightarrow> broker"
  before_decisions_pop :: "broker \<Rightarrow> broker"
  before_events_pop :: "broker \<Rightarrow> broker"
  before_pending_pop :: "broker \<Rightarrow> broker"

text \<open>
  The result of \<open>api_approval_wait\<close> is the time spent blocked, the response, and the
  registry as the third \<open>pop\<close> leaves it, which is where the handler returns.
\<close>

definition api_approval_wait :: "others \<Rightarrow> string \<Rightarrow> nat \<times> response \<times> broker" where
  "api_approval_wait sched request_id =
     (case events (while_blocked sched 0) request_id of
        None \<Rightarrow> (0, Not_found ''Unknown request_id'', while_blocked sched 0)
      | Some _ \<Rightarrow>
          let blocked = ev_wait 300 (\<lambda>t. events (while_blocked sched t) request_id = Some True);
              B1 = before_decisions_pop sched (while_blocked sched blocked);
              decision = (case decisions B1 request_id of None \<Rightarrow> ''deny'' | Some d \<Rightarrow> d);
              B2 = before_events_pop sched (B1\<lparr>decisions := (decisions B1)(request_id := None)\<rparr>);
              B3 = before_pending_pop sched (B2\<lparr>events := (events B2)(request_id := None)\<rparr>)
          in (blocked, Decision decision, B3\<lparr>pending := (pending B3)(request_id := None)\<rparr>))"

definition api_approval_decide :: "broker \<Rightarrow> provider \<Rightarrow> json_body \<Rightarrow> response \<times> broker \<times> provider" where
  "api_approval_decide B P body =
     (let request_id = get_or (members body) ''request_id'' [];
          decision = get_or (members body) ''decision'' ''deny''
      in
      if request_id = [] then (Bad_request ''request_id required'', B, P)
      else if decision \<notin> {''allow'', ''deny''}
        then (Bad_request ''decision must be allow or deny'', B, P)
      else
        case events B request_id of
          None \<Rightarrow> (Not_found ''No pending request for this request_id'', B, P)
        | Some _ \<Rightarrow>
            let B1 = B\<lparr>decisions := (decisions B)(request_id \<mapsto> decision),
                       events := (events B)(request_id \<mapsto> True)\<rparr>;
                chat = (case pending B request_id of None \<Rightarrow> [] | Some e \<Rightarrow> pending_chat_id e);
                P1 = (if chat \<noteq> []
                      then snd (inject_event P chat
                                  (PermissionDecision request_id (decision = ''allow'')))
                      else P)
            in (Ok_decision decision, B1, P1))"

definition api_approval_question :: "broker \<Rightarrow> provider \<Rightarrow> json_body \<Rightarrow> response \<times> broker \<times> provider" where
  "api_approval_question B P body =
     (let request_id = get_or (members body) ''request_id'' [];
          chat = get_or (members body) ''chat_id'' [];
          questions = (case questions_member body of None \<Rightarrow> [] | Some qs \<Rightarrow> qs)
      in
      if request_id = [] then (Bad_request ''request_id required'', B, P)
      else
        let B1 = B\<lparr>events := (events B)(request_id \<mapsto> False),
                   pending := (pending B)(request_id \<mapsto> PendingQuestion chat questions)\<rparr>;
            P1 = snd (inject_event P chat (UserQuestion request_id questions))
        in (Ok_registered request_id, B1, P1))"

definition api_approval_answer :: "broker \<Rightarrow> json_body \<Rightarrow> response \<times> broker" where
  "api_approval_answer B body =
     (let request_id = get_or (members body) ''request_id'' [];
          answer = get_or (members body) ''answer'' []
      in
      if request_id = [] then (Bad_request ''request_id required'', B)
      else
        case events B request_id of
          None \<Rightarrow> (Not_found ''No pending request for this request_id'', B)
        | Some _ \<Rightarrow>
            (Ok_answer, B\<lparr>decisions := (decisions B)(request_id \<mapsto> answer),
                          events := (events B)(request_id \<mapsto> True)\<rparr>))"

section \<open>Initial states and request bodies\<close>

text \<open>The registry as the module creates it, and the provider as \<open>__init__\<close> leaves it when
  no sessions file exists yet.\<close>

definition empty_broker :: broker where
  "empty_broker = \<lparr>pending = Map.empty, decisions = Map.empty, events = Map.empty\<rparr>"

definition new_provider :: "bool \<Rightarrow> provider" where
  "new_provider has_file =
     \<lparr>claude_cli = ''claude'', session_map = Map.empty, code_folders = Map.empty,
      inject_queues = Map.empty, stdin_map = {}, process_map = {},
      cancelled_prompts = Map.empty, sessions_file = has_file\<rparr>"

text \<open>The body that \<open>_request_approval\<close> posts, and the body of a decide call.\<close>

definition request_body :: "string \<Rightarrow> string \<Rightarrow> string \<Rightarrow> tool_input \<Rightarrow> json_body" where
  "request_body request_id chat tool_name inp =
     \<lparr>members = [''chat_id'' \<mapsto> chat, ''request_id'' \<mapsto> request_id, ''tool'' \<mapsto> tool_name],
      input_member = Some inp, questions_member = None\<rparr>"

definition decide_body :: "string \<Rightarrow> string \<Rightarrow> json_body" where
  "decide_body request_id decision =
     \<lparr>members = [''request_id'' \<mapsto> request_id, ''decision'' \<mapsto> decision],
      input_member = None, questions_member = None\<rparr>"

text \<open>
  A registry in which a signal is fired only for a request whose decision slot is filled.
  The module starts in such a registry and every handler keeps it so.
\<close>

definition signal_follows_decision :: "broker \<Rightarrow> bool" where
  "signal_follows_decision B =
     (\<forall>request_id. events B request_id = Some True \<longrightarrow> decisions B request_id \<noteq> None)"

text \<open>A wait during which no other thread touches the registry \<open>B\<close>.\<close>

definition still :: "broker \<Rightarrow> others" where
  "still B = \<lparr>while_blocked = (\<lambda>t. B), before_decisions_pop = (\<lambda>B'. B'),
               before_events_pop = (\<lambda>B'. B'), before_pending_pop = (\<lambda>B'. B')\<rparr>"

text \<open>
  A scenario: a \<open>Bash\<close> call that no rule covers is registered and surfaced, the frontend
  posts \<open>allow\<close> for it and then posts \<open>deny\<close> for it.
\<close>

definition surfaced :: "response \<times> broker \<times> provider" where
  "surfaced = api_approval_request ascii_lib None empty_broker (new_provider True)
                (request_body ''X'' ''chat-1'' ''Bash'' [''command'' \<mapsto> ''make''])"

definition decided_once :: "response \<times> broker \<times> provider" where
  "decided_once =
     api_approval_decide (fst (snd surfaced)) (snd (snd surfaced)) (decide_body ''X'' ''allow'')"

definition decided_twice :: "response \<times> broker \<times> provider" where
  "decided_twice =
     api_approval_decide (fst (snd decided_once)) (snd (snd decided_once)) (decide_body ''X'' ''deny'')"






section \<open>Approval gate client (mcp/approval\_gate.py)\<close>

text \<open>
  A call that may raise: \<open>Raised\<close> carries the text of the exception. A line or body given
  to \<open>json.loads\<close> is not JSON, is JSON but not an object, or is an object, of which the
  string-valued members are kept.
\<close>

datatype 'a outcome = Raised string | Returned 'a

datatype parsed = JSONDecodeError | NonObject | Object "string \<rightharpoonup> string"

text \<open>
  What the client process meets outside itself: the request id drawn by \<open>uuid.uuid4()\<close>,
  the two HTTP calls of \<open>_request_approval\<close> (the wait call together with
  \<open>json.loads(resp.read())\<close>), the two of \<open>_request_user_answer\<close>, and the executors,
  which act on the file system and the shell.
\<close>

record gate_env =
  new_request_id :: string
  post_request :: "json_body \<Rightarrow> unit outcome"
  post_question :: "json_body \<Rightarrow> unit outcome"
  get_wait :: "string \<Rightarrow> parsed outcome"
  run_executor :: "string \<Rightarrow> tool_input \<Rightarrow> string outcome"

definition request_approval :: "gate_env \<Rightarrow> string \<Rightarrow> string \<Rightarrow> tool_input \<Rightarrow> string" where
  "request_approval env chat tool_name inp =
     (let request_id = new_request_id env in
      case post_request env (request_body request_id chat tool_name inp) of
        Raised exc \<Rightarrow> ''deny''
      | Returned _ \<Rightarrow>
          (case get_wait env request_id of
             Raised exc \<Rightarrow> ''deny''
           | Returned JSONDecodeError \<Rightarrow> ''deny''
           | Returned NonObject \<Rightarrow> ''deny''
           | Returned (Object data) \<Rightarrow> get_or data ''decision'' ''deny''))"

definition question_body :: "string \<Rightarrow> string \<Rightarrow> string list \<Rightarrow> json_body" where
  "question_body request_id chat questions =
     \<lparr>members = [''chat_id'' \<mapsto> chat, ''request_id'' \<mapsto> request_id],
      input_member = None, questions_member = Some questions\<rparr>"

text \<open>The text returned by \<open>_request_user_answer\<close>: the answer, or
  \<open>json.dumps({"error": str(exc)})\<close>, whose text is left out.\<close>

datatype answer_text = Answer string | Error_object

definition request_user_answer :: "gate_env \<Rightarrow> string \<Rightarrow> string list \<Rightarrow> answer_text" where
  "request_user_answer env chat questions =
     (let request_id = new_request_id env in
      case post_question env (question_body request_id chat questions) of
        Raised exc \<Rightarrow> Error_object
      | Returned _ \<Rightarrow>
          (case get_wait env request_id of
             Raised exc \<Rightarrow> Error_object
           | Returned JSONDecodeError \<Rightarrow> Error_object
           | Returned NonObject \<Rightarrow> Error_object
           | Returned (Object data) \<Rightarrow> Answer (get_or data ''decision'' ''{}'')))"

definition EXECUTORS :: "string set" where
  "EXECUTORS = {''Write'', ''Edit'', ''MultiEdit'', ''Bash''}"

text \<open>
  The \<open>tools/call\<close> branch of \<open>main\<close>: the reply written to stdout, and whether an
  executor was run.
\<close>

datatype rpc_reply =
    Question_result answer_text   \<comment> \<open>\<open>_ok\<close> with the answer, \<open>isError\<close> false\<close>
  | Tool_result string bool       \<comment> \<open>\<open>_ok\<close> with a text and \<open>isError\<close>\<close>
  | Unknown_tool string           \<comment> \<open>\<open>_err\<close> with code -32601\<close>

definition tools_call ::
  "gate_env \<Rightarrow> string \<Rightarrow> string \<Rightarrow> tool_input \<Rightarrow> string list \<Rightarrow> rpc_reply \<times> bool" where
  "tools_call env chat tool_name inp questions =
     (if tool_name = ''AskUserQuestion''
        then (Question_result (request_user_answer env chat questions), False)
      else if tool_name \<notin> EXECUTORS then (Unknown_tool tool_name, False)
      else
        let decision = request_approval env chat tool_name inp in
        if decision \<noteq> ''allow'' then (Tool_result ''[Tool use denied by user]'' True, False)
        else
          case run_executor env tool_name inp of
            Returned result_text \<Rightarrow> (Tool_result result_text False, True)
          | Raised exc \<Rightarrow> (Tool_result (''Error: '' @ exc) True, True))"

text \<open>A broker that cannot be reached, with executors that would succeed.\<close>

definition unreachable_env :: gate_env where
  "unreachable_env =
     \<lparr>new_request_id = ''X'',
      post_request = (\<lambda>body. Raised ''Connection refused''),
      post_question = (\<lambda>body. Raised ''Connection refused''),
      get_wait = (\<lambda>request_id. Raised ''Connection refused''),
      run_executor = (\<lambda>tool_name inp. Returned ''done'')\<rparr>"

section \<open>Process supervisor (agents/claude\_code\_provider.py)\<close>

text \<open>
  The event dictionaries that \<open>_run_stream_impl\<close> builds and yields itself, one constructor
  for each \<open>json.dumps({...})\<close> in it, with the values that its message is formatted from.
\<close>

datatype own_event =
    Debug_cmd "string list"           \<comment> \<open>type \<open>debug\<close>: the command line\<close>
  | Error_workdir string              \<comment> \<open>type \<open>error\<close>: working directory does not exist\<close>
  | Error_cli_not_found string        \<comment> \<open>type \<open>error\<close>: claude CLI not found\<close>
  | Error_stdin_write string          \<comment> \<open>type \<open>error\<close>: stdin write error\<close>
  | Error_stderr string               \<comment> \<open>type \<open>error\<close>: \<open>"claude: " + line\<close>\<close>
  | Error_no_stdout int "string list" \<comment> \<open>type \<open>error\<close>: exit code and the stderr lines\<close>
  | Cancelled                         \<comment> \<open>type \<open>cancelled\<close>\<close>
  | Session_compacting                \<comment> \<open>type \<open>session_compacting\<close>\<close>
  | Session_compacted                 \<comment> \<open>type \<open>session_compacted\<close>\<close>
  | Session_reset                     \<comment> \<open>type \<open>session_reset\<close>\<close>

fun event_type :: "own_event \<Rightarrow> string" where
  "event_type (Debug_cmd _) = ''debug''"
| "event_type (Error_workdir _) = ''error''"
| "event_type (Error_cli_not_found _) = ''error''"
| "event_type (Error_stdin_write _) = ''error''"
| "event_type (Error_stderr _) = ''error''"
| "event_type (Error_no_stdout _ _) = ''error''"
| "event_type Cancelled = ''cancelled''"
| "event_type Session_compacting = ''session_compacting''"
| "event_type Session_compacted = ''session_compacted''"
| "event_type Session_reset = ''session_reset''"

text \<open>A yielded line, by the statement that yields it: an event of the run's own, a stdout
  line passed through, or an injected line passed through.\<close>

datatype emitted = Own own_event | Stdout string | Injected inj_event

text \<open>What a run does to the session map, the sessions file and its subprocesses, in program
  order.\<close>

datatype action =
    Spawn "string list"                 \<comment> \<open>\<open>subprocess.Popen(cmd, ...)\<close>\<close>
  | Write_user_message string "string list"  \<comment> \<open>the first stdin line: prompt and images\<close>
  | Store_session string string         \<comment> \<open>\<open>self._session_map[chat_id] = sid\<close>\<close>
  | Drop_session string                 \<comment> \<open>\<open>self._session_map.pop(chat_id, None)\<close>\<close>
  | Save_sessions "string \<rightharpoonup> string" "string \<rightharpoonup> string"
                                        \<comment> \<open>\<open>_save_sessions\<close> writing the file from both maps\<close>
  | Close_stdin                         \<comment> \<open>\<open>process.stdin.close()\<close>\<close>
  | Wait_exit                           \<comment> \<open>\<open>process.wait\<close>\<close>
  | Kill                                \<comment> \<open>\<open>process.kill()\<close>\<close>
  | Run_compact "string list"           \<comment> \<open>\<open>subprocess.run\<close> of the compact command\<close>

definition save_sessions :: "provider \<Rightarrow> action list" where
  "save_sessions P =
     (if sessions_file P then [Save_sessions (session_map P) (code_folders P)] else [])"


text \<open>\<open>cancel\<close>: \<open>running\<close> tells whether the registered process has not exited yet. The
  termination signal goes to the process; the sentinel goes into the chat's queue.\<close>

definition cancel :: "provider \<Rightarrow> string \<Rightarrow> bool \<Rightarrow> bool \<times> provider" where
  "cancel P chat running =
     (if chat \<notin> process_map P \<or> \<not> running then (False, P)
      else (True, case inject_queues P chat of
                    None \<Rightarrow> P
                  | Some q \<Rightarrow> P\<lparr>inject_queues := (inject_queues P)(chat \<mapsto> q @ [Cancel])\<rparr>))"

subsection \<open>The consuming loop\<close>

record loop_state =
  out_done :: bool
  err_done :: bool
  stdout_lines :: "string list"
  stderr_lines :: "string list"
  got_result :: bool
  was_cancelled :: bool
  yielded :: "emitted list"     \<comment> \<open>the lines yielded so far\<close>
  prov :: provider              \<comment> \<open>\<open>self\<close>\<close>
  stdin_closed :: bool          \<comment> \<open>\<open>process.stdin.closed\<close>\<close>
  actions :: "action list"      \<comment> \<open>the actions done so far\<close>

definition loop_init :: "provider \<Rightarrow> emitted list \<Rightarrow> action list \<Rightarrow> loop_state" where
  "loop_init P ys acts =
     \<lparr>out_done = False, err_done = False, stdout_lines = [], stderr_lines = [],
      got_result = False, was_cancelled = False, yielded = ys, prov = P,
      stdin_closed = False, actions = acts\<rparr>"

datatype ctl = Continue | Break | Raise

text \<open>What the \<open>result\<close> branch does before the line is yielded: capture the session id,
  then close stdin.\<close>

definition on_result :: "string \<Rightarrow> (string \<rightharpoonup> string) \<Rightarrow> loop_state \<Rightarrow> loop_state" where
  "on_result chat ev st =
     (let st1 = st\<lparr>got_result := True\<rparr>;
          sid = get_or ev ''session_id'' [];
          st2 = (if sid \<noteq> [] \<and> chat \<noteq> [] then
                   (let P1 = (prov st1)\<lparr>session_map := (session_map (prov st1))(chat \<mapsto> sid)\<rparr>
                    in st1\<lparr>prov := P1,
                           actions := actions st1 @ Store_session chat sid # save_sessions P1\<rparr>)
                 else st1)
      in if \<not> stdin_closed st2
         then st2\<lparr>stdin_closed := True, actions := actions st2 @ [Close_stdin]\<rparr>
         else st2)"

text \<open>The loop body for one dequeued item. \<open>event.get\<close> on a JSON value that is not an
  object raises \<open>AttributeError\<close>, which the body does not catch.\<close>

fun handle :: "(string \<Rightarrow> parsed) \<Rightarrow> string \<Rightarrow> loop_state \<Rightarrow> qitem \<Rightarrow> ctl \<times> loop_state" where
  "handle jl chat st OutEof = (Continue, st\<lparr>out_done := True\<rparr>)"
| "handle jl chat st ErrEof = (Continue, st\<lparr>err_done := True\<rparr>)"
| "handle jl chat st Cancel =
     (Break, st\<lparr>was_cancelled := True, yielded := yielded st @ [Own Cancelled]\<rparr>)"
| "handle jl chat st (Inject ev) = (Continue, st\<lparr>yielded := yielded st @ [Injected ev]\<rparr>)"
| "handle jl chat st (Out line) =
     (if line = [] then (Continue, st)
      else
        let st1 = st\<lparr>stdout_lines := stdout_lines st @ [line]\<rparr> in
        case jl line of
          JSONDecodeError \<Rightarrow> (Continue, st1\<lparr>yielded := yielded st1 @ [Stdout line]\<rparr>)
        | NonObject \<Rightarrow> (Raise, st1)
        | Object ev \<Rightarrow>
            (let st2 = (if ev ''type'' = Some ''result'' then on_result chat ev st1 else st1)
             in (Continue, st2\<lparr>yielded := yielded st2 @ [Stdout line]\<rparr>)))"
| "handle jl chat st (Err line) =
     (if line = [] then (Continue, st)
      else (Continue, st\<lparr>stderr_lines := stderr_lines st @ [line],
                         yielded := yielded st @ [Own (Error_stderr line)]\<rparr>))"

text \<open>
  The loop \<open>while not (out_done and err_done)\<close> over the items in the order in which they
  reach the queue. \<open>merged_q.get(timeout=None)\<close> on a queue that stays empty never returns:
  \<open>Blocked\<close>.
\<close>

datatype loop_end = Finished | Broke | Blocked | Raised_in_loop

fun consume :: "(string \<Rightarrow> parsed) \<Rightarrow> string \<Rightarrow> loop_state \<Rightarrow> qitem list \<Rightarrow> loop_end \<times> loop_state" where
  "consume jl chat st [] = (if out_done st \<and> err_done st then (Finished, st) else (Blocked, st))"
| "consume jl chat st (item # rest) =
     (if out_done st \<and> err_done st then (Finished, st)
      else case handle jl chat st item of
             (Continue, st1) \<Rightarrow> consume jl chat st1 rest
           | (Break, st1) \<Rightarrow> (Broke, st1)
           | (Raise, st1) \<Rightarrow> (Raised_in_loop, st1))"

subsection \<open>One run\<close>

datatype spawn_outcome =
    Spawned
  | File_not_found bool   \<comment> \<open>\<open>FileNotFoundError\<close>; whether \<open>Path(workspace).is_dir()\<close>\<close>
  | Spawn_error           \<comment> \<open>any other exception of \<open>Popen\<close>\<close>

datatype compact_outcome = Exited int | Timeout_expired | Compact_error

text \<open>What one spawned subprocess does: how the spawn and the prompt write end, the items
  that reach the merged queue, in order, the exit code, and whether after a termination
  signal the process exits within the three seconds of grace.\<close>

record attempt =
  spawn :: spawn_outcome
  stdin_write :: "unit outcome"
  arrivals :: "qitem list"
  returncode :: int
  exits_within_grace :: bool

text \<open>The surroundings of a run: \<open>json.loads\<close> and \<open>str.lower\<close>, the subprocesses in the
  order in which the run spawns them, the outcome of the compact command, and the MCP
  configuration string.\<close>

record world =
  json_loads :: "string \<Rightarrow> parsed"
  str_lower :: "string \<Rightarrow> string"
  attempts :: "nat \<Rightarrow> attempt"
  compact_run :: "string list \<Rightarrow> compact_outcome"
  mcp_cfg :: string

record run_args =
  prompt :: string
  workspace :: string
  model :: string
  chat_id :: string
  images :: "string list"
  is_retry :: bool
  original_prompt :: string

datatype run_end = Returns | Hangs | Raises

record run_result =
  yields :: "emitted list"
  final :: provider
  effects :: "action list"
  ending :: run_end

definition PROMPT_TOO_LONG_PATTERNS :: "string list" where
  "PROMPT_TOO_LONG_PATTERNS =
     [''prompt is too long'', ''prompt_too_long'', ''context window'', ''maximum context length'']"

fun contains :: "string \<Rightarrow> string \<Rightarrow> bool" where
  "contains [] p = (p = [])"
| "contains (c # cs) p = (startswith (c # cs) p \<or> contains cs p)"

fun join :: "string \<Rightarrow> string list \<Rightarrow> string" where
  "join sep [] = []"
| "join sep [x] = x"
| "join sep (x # y # ys) = x @ sep @ join sep (y # ys)"

definition claude_session_of :: "provider \<Rightarrow> string \<Rightarrow> string" where
  "claude_session_of P chat = (case session_map P chat of None \<Rightarrow> [] | Some sid \<Rightarrow> sid)"

definition build_cmd :: "world \<Rightarrow> provider \<Rightarrow> string \<Rightarrow> string \<Rightarrow> string list" where
  "build_cmd w P model_name claude_session =
     [claude_cli P, ''-p'', ''--verbose'', ''--include-partial-messages'',
      ''--output-format'', ''stream-json'', ''--input-format'', ''stream-json'',
      ''--dangerously-skip-permissions'',
      ''--allowedTools'',
      ''mcp__approval-gate__Write,mcp__approval-gate__Edit,mcp__approval-gate__MultiEdit,mcp__approval-gate__Bash,mcp__approval-gate__AskUserQuestion,WebFetch,WebSearch'',
      ''--disallowedTools'',
      ''Bash,Write,Edit,MultiEdit,Task,TaskOutput,EnterPlanMode,ExitPlanMode,AskUserQuestion'']
     @ (if model_name \<noteq> [] then [''--model'', model_name] else [])
     @ (if claude_session \<noteq> [] then [''--resume'', claude_session] else [])
     @ [''--mcp-config'', mcp_cfg w]"

definition compact_cmd :: "provider \<Rightarrow> string \<Rightarrow> string \<Rightarrow> string list" where
  "compact_cmd P session_id model_name =
     [claude_cli P, ''-p'', ''--resume'', session_id]
     @ (if model_name \<noteq> [] then [''--model'', model_name] else [])
     @ [''/compact'']"

definition try_compact_session :: "world \<Rightarrow> provider \<Rightarrow> string \<Rightarrow> string \<Rightarrow> bool" where
  "try_compact_session w P session_id model_name =
     (case compact_run w (compact_cmd P session_id model_name) of
        Exited rc \<Rightarrow> rc = 0
      | Timeout_expired \<Rightarrow> False
      | Compact_error \<Rightarrow> False)"

definition register :: "provider \<Rightarrow> string \<Rightarrow> provider" where
  "register P chat =
     (if chat \<noteq> [] then
        P\<lparr>inject_queues := (inject_queues P)(chat \<mapsto> []),
          stdin_map := insert chat (stdin_map P),
          process_map := insert chat (process_map P)\<rparr>
      else P)"

text \<open>The \<open>finally\<close> block after the loop.\<close>

definition teardown :: "string \<Rightarrow> attempt \<Rightarrow> loop_state \<Rightarrow> loop_state" where
  "teardown chat att st =
     (let st1 = st\<lparr>actions := actions st @
                   (if was_cancelled st
                    then (if exits_within_grace att then [Wait_exit] else [Wait_exit, Kill, Wait_exit])
                    else [Wait_exit])\<rparr>
      in
      if chat = [] then st1
      else
        let P = prov st1;
            st2 = st1\<lparr>prov := P\<lparr>inject_queues := (inject_queues P)(chat := None),
                                 process_map := process_map P - {chat},
                                 stdin_map := stdin_map P - {chat}\<rparr>\<rparr>
        in if chat \<in> stdin_map P \<and> \<not> stdin_closed st2
           then st2\<lparr>stdin_closed := True, actions := actions st2 @ [Close_stdin]\<rparr>
           else st2)"

definition prompt_too_long :: "world \<Rightarrow> run_args \<Rightarrow> string \<Rightarrow> loop_state \<Rightarrow> bool" where
  "prompt_too_long w a claude_session st =
     (\<not> got_result st \<and> \<not> is_retry a \<and> chat_id a \<noteq> [] \<and> claude_session \<noteq> [] \<and>
      (\<exists>p \<in> set PROMPT_TOO_LONG_PATTERNS.
          contains (str_lower w (join [CHR 0x0A] (stdout_lines st @ stderr_lines st))) p))"

text \<open>\<open>yield from\<close> a nested run after the lines and actions that came before it.\<close>

definition yield_from :: "emitted list \<Rightarrow> action list \<Rightarrow> run_result \<Rightarrow> run_result" where
  "yield_from ys acts r = r\<lparr>yields := ys @ yields r, effects := acts @ effects r\<rparr>"

definition start_state :: "world \<Rightarrow> provider \<Rightarrow> run_args \<Rightarrow> loop_state" where
  "start_state w P a =
     (let cmd = build_cmd w P (model a) (claude_session_of P (chat_id a))
      in loop_init (register P (chat_id a)) [Own (Debug_cmd cmd)]
           [Spawn cmd, Write_user_message (prompt a) (images a)])"

text \<open>The consuming loop of the call that meets subprocess \<open>n\<close>, and the state after its
  \<open>finally\<close> block.\<close>

definition loop_run :: "world \<Rightarrow> provider \<Rightarrow> run_args \<Rightarrow> nat \<Rightarrow> loop_end \<times> loop_state" where
  "loop_run w P a n =
     consume (json_loads w) (chat_id a) (start_state w P a) (arrivals (attempts w n))"

definition after_loop :: "world \<Rightarrow> provider \<Rightarrow> run_args \<Rightarrow> nat \<Rightarrow> loop_state" where
  "after_loop w P a n = teardown (chat_id a) (attempts w n) (snd (loop_run w P a n))"

text \<open>
  \<open>_run_stream_impl\<close>, drained by its caller. The argument \<open>n\<close> counts the subprocesses
  spawned before this call, so that the call meets the subprocess \<open>attempts w n\<close>.
\<close>

function run_stream_impl :: "world \<Rightarrow> provider \<Rightarrow> run_args \<Rightarrow> nat \<Rightarrow> run_result" where
  "run_stream_impl w P a n =
     (let att = attempts w n;
          claude_session = claude_session_of P (chat_id a);
          cmd = build_cmd w P (model a) claude_session
      in
      case spawn att of
        File_not_found is_dir \<Rightarrow>
          \<lparr>yields = [Own (Debug_cmd cmd),
                     Own (if workspace a \<noteq> [] \<and> \<not> is_dir then Error_workdir (workspace a)
                          else Error_cli_not_found (claude_cli P))],
           final = P, effects = [Spawn cmd], ending = Returns\<rparr>
      | Spawn_error \<Rightarrow>
          \<lparr>yields = [Own (Debug_cmd cmd)], final = P, effects = [Spawn cmd], ending = Raises\<rparr>
      | Spawned \<Rightarrow>
          (case stdin_write att of
             Raised exc \<Rightarrow>
               \<lparr>yields = [Own (Debug_cmd cmd), Own (Error_stdin_write exc)], final = P,
                effects = [Spawn cmd, Write_user_message (prompt a) (images a), Kill],
                ending = Returns\<rparr>
           | Returned _ \<Rightarrow>
               (let lp = loop_run w P a n;
                    st = after_loop w P a n
                in
                if fst lp = Blocked then
                  \<lparr>yields = yielded (snd lp), final = prov (snd lp),
                   effects = actions (snd lp), ending = Hangs\<rparr>
                else if fst lp = Raised_in_loop then
                  \<lparr>yields = yielded st, final = prov st, effects = actions st, ending = Raises\<rparr>
                else if was_cancelled st then
                  \<lparr>yields = yielded st,
                   final = (if chat_id a \<noteq> [] then
                              (prov st)\<lparr>cancelled_prompts := (cancelled_prompts (prov st))
                                          (chat_id a \<mapsto> py_or (original_prompt a) (prompt a))\<rparr>
                            else prov st),
                   effects = actions st, ending = Returns\<rparr>
                else if prompt_too_long w a claude_session st then
                  (if try_compact_session w (prov st) claude_session (model a) then
                     yield_from (yielded st @ [Own Session_compacting, Own Session_compacted])
                       (actions st @ [Run_compact (compact_cmd (prov st) claude_session (model a))])
                       (run_stream_impl w (prov st) (a\<lparr>is_retry := True, original_prompt := []\<rparr>)
                          (Suc n))
                   else
                     (let P1 = (prov st)\<lparr>session_map := (session_map (prov st))(chat_id a := None)\<rparr>
                      in yield_from (yielded st @ [Own Session_compacting, Own Session_reset])
                           (actions st @ [Run_compact (compact_cmd (prov st) claude_session (model a)),
                                          Drop_session (chat_id a)] @ save_sessions P1)
                           (run_stream_impl w P1 (a\<lparr>is_retry := True, original_prompt := []\<rparr>)
                              (Suc n))))
                else
                  \<lparr>yields = yielded st @
                             (if \<not> got_result st \<and> stdout_lines st = []
                              then [Own (Error_no_stdout (returncode att) (stderr_lines st))]
                              else []),
                   final = prov st, effects = actions st, ending = Returns\<rparr>)))"
  by pat_completeness auto
termination
  by (relation "measure (\<lambda>(w, P, a, n). if is_retry a then 0 else 1)")
     (auto simp: prompt_too_long_def)

declare run_stream_impl.simps [simp del]

text \<open>\<open>run_stream\<close>: the prompt of a cancelled previous run is taken out of
  \<open>_cancelled_prompts\<close> and put before the new prompt.\<close>

definition with_context :: "string \<Rightarrow> string \<Rightarrow> string" where
  "with_context prev_prompt new_prompt =
     ''[Context: the user'' @ [CHR 0x27] @ ''s previous request was cancelled before you could finish. ''
     @ ''Their original message was:'' @ [CHR 0x0A, CHR 0x0A] @ prev_prompt @ [CHR 0x0A, CHR 0x0A]
     @ ''---'' @ [CHR 0x0A] @ ''Their new message is:]'' @ [CHR 0x0A, CHR 0x0A] @ new_prompt"

definition run_stream :: "world \<Rightarrow> provider \<Rightarrow> run_args \<Rightarrow> run_result" where
  "run_stream w P a =
     (let prev_prompt = (if chat_id a \<noteq> []
                         then (case cancelled_prompts P (chat_id a) of None \<Rightarrow> [] | Some p \<Rightarrow> p)
                         else []);
          P1 = (if chat_id a \<noteq> []
                then P\<lparr>cancelled_prompts := (cancelled_prompts P)(chat_id a := None)\<rparr> else P);
          new_prompt = (if prev_prompt \<noteq> [] then with_context prev_prompt (prompt a) else prompt a)
      in run_stream_impl w P1
           (a\<lparr>prompt := new_prompt, is_retry := False, original_prompt := prompt a\<rparr>) 0)"

subsection \<open>Reading queues, outputs and logs\<close>

text \<open>The lines that one dequeued item makes the loop yield.\<close>

fun yield_of :: "(string \<Rightarrow> parsed) \<Rightarrow> qitem \<Rightarrow> emitted list" where
  "yield_of jl (Out line) = (if line = [] \<or> jl line = NonObject then [] else [Stdout line])"
| "yield_of jl (Err line) = (if line = [] then [] else [Own (Error_stderr line)])"
| "yield_of jl (Inject ev) = [Injected ev]"
| "yield_of jl Cancel = [Own Cancelled]"
| "yield_of jl OutEof = []"
| "yield_of jl ErrEof = []"

text \<open>A stdout line on which the loop body raises, and a stdout line that is a \<open>result\<close>
  event.\<close>

fun raises :: "(string \<Rightarrow> parsed) \<Rightarrow> qitem \<Rightarrow> bool" where
  "raises jl (Out line) = (line \<noteq> [] \<and> jl line = NonObject)"
| "raises jl item = False"

fun is_result :: "(string \<Rightarrow> parsed) \<Rightarrow> qitem \<Rightarrow> bool" where
  "is_result jl (Out line) =
     (line \<noteq> [] \<and> (case jl line of Object ev \<Rightarrow> ev ''type'' = Some ''result'' | _ \<Rightarrow> False))"
| "is_result jl item = False"

text \<open>
  The loop, started by a run, dequeues every item of \<open>pre\<close> and then asks for the next one:
  no item of \<open>pre\<close> is the cancel sentinel, none makes the body raise, and \<open>pre\<close> does not
  hold both end-of-file markers.
\<close>

definition dequeues_all :: "(string \<Rightarrow> parsed) \<Rightarrow> qitem list \<Rightarrow> bool" where
  "dequeues_all jl pre =
     (Cancel \<notin> set pre \<and> \<not> list_ex (raises jl) pre \<and> \<not> (OutEof \<in> set pre \<and> ErrEof \<in> set pre))"

text \<open>The state of the loop after it has handled the given items one after another.\<close>

definition feed :: "(string \<Rightarrow> parsed) \<Rightarrow> string \<Rightarrow> loop_state \<Rightarrow> qitem list \<Rightarrow> loop_state" where
  "feed jl chat st items = foldl (\<lambda>s item. snd (handle jl chat s item)) st items"

fun is_spawn :: "action \<Rightarrow> bool" where
  "is_spawn (Spawn cmd) = True"
| "is_spawn act = False"

fun is_compact :: "action \<Rightarrow> bool" where
  "is_compact (Run_compact cmd) = True"
| "is_compact act = False"

definition recovery_event :: "emitted \<Rightarrow> bool" where
  "recovery_event e = (e \<in> {Own Session_compacting, Own Session_compacted, Own Session_reset})"

fun error_event :: "emitted \<Rightarrow> bool" where
  "error_event (Own ev) = (event_type ev = ''error'')"
| "error_event e = False"

text \<open>The stdout line and the stderr line that an item adds to the lists kept by the loop.\<close>

fun stdout_line :: "qitem \<Rightarrow> string list" where
  "stdout_line (Out line) = (if line = [] then [] else [line])"
| "stdout_line item = []"

fun stderr_line :: "qitem \<Rightarrow> string list" where
  "stderr_line (Err line) = (if line = [] then [] else [line])"
| "stderr_line item = []"

text \<open>The loop, started by a run, dequeues all of \<open>pre\<close>, then \<open>item\<close>, and ends there
  because both end-of-file markers have been seen.\<close>

definition finishes_after :: "(string \<Rightarrow> parsed) \<Rightarrow> qitem list \<Rightarrow> qitem \<Rightarrow> bool" where
  "finishes_after jl pre item =
     (dequeues_all jl pre \<and> (item = OutEof \<or> item = ErrEof)
      \<and> OutEof \<in> set (item # pre) \<and> ErrEof \<in> set (item # pre))"

subsection \<open>Scenario worlds\<close>

text \<open>\<open>str.lower\<close> on ASCII text.\<close>

definition ascii_lower :: "string \<Rightarrow> string" where
  "ascii_lower s =
     map (\<lambda>c. case map_of (zip ''ABCDEFGHIJKLMNOPQRSTUVWXYZ'' ''abcdefghijklmnopqrstuvwxyz'') c of
                 None \<Rightarrow> c | Some l \<Rightarrow> l) s"

text \<open>A \<open>result\<close> line that reports session \<open>s-1\<close>, and a \<open>json.loads\<close> that knows this line
  and takes every other line for plain text.\<close>

definition result_line :: string where
  \<open>result_line = ''{"type": "result", "session_id": "s-1"}''\<close>

definition scenario_loads :: "string \<Rightarrow> parsed" where
  "scenario_loads line =
     (if line = result_line then Object [''type'' \<mapsto> ''result'', ''session_id'' \<mapsto> ''s-1'']
      else JSONDecodeError)"

text \<open>A world in which every subprocess spawns, takes the prompt, sends the given items and
  exits, and in which the compact command succeeds.\<close>

definition scenario_world :: "qitem list \<Rightarrow> world" where
  "scenario_world items =
     \<lparr>json_loads = scenario_loads, str_lower = ascii_lower,
      attempts = (\<lambda>n. \<lparr>spawn = Spawned, stdin_write = Returned (), arrivals = items,
                        returncode = 0, exits_within_grace = True\<rparr>),
      compact_run = (\<lambda>cmd. Exited 0), mcp_cfg = ''{}''\<rparr>"

definition scenario_args :: "string \<Rightarrow> bool \<Rightarrow> run_args" where
  "scenario_args chat retry =
     \<lparr>prompt = ''hello'', workspace = ''/work/app'', model = [], chat_id = chat, images = [],
      is_retry = retry, original_prompt = ''hello''\<rparr>"

text \<open>A provider that holds session \<open>s-0\<close> for chat \<open>chat-1\<close>.\<close>

definition resumed_provider :: provider where
  "resumed_provider = (new_provider True)\<lparr>session_map := [''chat-1'' \<mapsto> ''s-0'']\<rparr>"




section \<open>Properties of the rule engine\<close>

lemma check_rules_iff:
  "check_rules lib act rules tool_name inp =
     (\<exists>r \<in> set rules. rule_action r = Some act \<and> matches lib r tool_name inp)"
  by (induction rules) auto

lemmas engine_defs =
  check_def mk_rule_def matches_def suggest_bash_pattern_def ascii_lib_def ascii_strip_def
  py_space_def posix_split_def shlex_whitespace_def shlex_quote_def emit_token_def get_or_def
  DANGEROUS_def

text \<open>The default rules on three calls.\<close>

lemma default_rules_scenarios:
  "check ascii_lib DEFAULT_RULES ''Bash'' [''command'' \<mapsto> ''rm -rf /''] = ''deny''"
  "check ascii_lib DEFAULT_RULES ''Bash'' [''command'' \<mapsto> ''git status''] = ''allow''"
  "check ascii_lib DEFAULT_RULES ''Bash'' [''command'' \<mapsto> ''unknownbinary''] = ''ask''"
  by (simp_all add: engine_defs DEFAULT_RULES_def)

text \<open>
  Claim C1. Whatever the rule list and the call: when some rule of the list with action
  \<open>deny\<close> matches the call, \<open>check\<close> returns \<open>deny\<close>. Nothing is assumed about the allow
  rules, so one of them may match the same call, and the same holds for every list with
  the same rules in another order.
\<close>

theorem deny_wins:
  assumes "r \<in> set rules" and "rule_action r = Some ''deny''" and "matches lib r tool_name inp"
  shows "check lib rules tool_name inp = ''deny''
       \<and> (\<forall>rules'. set rules' = set rules \<longrightarrow> check lib rules' tool_name inp = ''deny'')"
  using assms by (auto simp: check_def check_rules_iff)

theorem deny_wins_witness:
  "mk_rule ''Bash'' ''prefix'' ''rm'' ''deny''
     \<in> set [mk_rule ''Bash'' ''prefix'' ''rm'' ''allow'', mk_rule ''Bash'' ''prefix'' ''rm'' ''deny'']
 \<and> rule_action (mk_rule ''Bash'' ''prefix'' ''rm'' ''deny'') = Some ''deny''
 \<and> matches ascii_lib (mk_rule ''Bash'' ''prefix'' ''rm'' ''deny'') ''Bash'' [''command'' \<mapsto> ''rm -rf /'']
 \<and> matches ascii_lib (mk_rule ''Bash'' ''prefix'' ''rm'' ''allow'') ''Bash'' [''command'' \<mapsto> ''rm -rf /'']
 \<and> check ascii_lib [mk_rule ''Bash'' ''prefix'' ''rm'' ''allow'', mk_rule ''Bash'' ''prefix'' ''rm'' ''deny'']
      ''Bash'' [''command'' \<mapsto> ''rm -rf /''] = ''deny''
 \<and> check ascii_lib [mk_rule ''Bash'' ''prefix'' ''rm'' ''deny'', mk_rule ''Bash'' ''prefix'' ''rm'' ''allow'']
      ''Bash'' [''command'' \<mapsto> ''rm -rf /''] = ''deny''"
proof -
  have m: "matches ascii_lib (mk_rule ''Bash'' ''prefix'' ''rm'' ''deny'') ''Bash'' [''command'' \<mapsto> ''rm -rf /'']"
    by (simp add: engine_defs)
  have a: "matches ascii_lib (mk_rule ''Bash'' ''prefix'' ''rm'' ''allow'') ''Bash'' [''command'' \<mapsto> ''rm -rf /'']"
    by (simp add: engine_defs)
  have i: "mk_rule ''Bash'' ''prefix'' ''rm'' ''deny''
     \<in> set [mk_rule ''Bash'' ''prefix'' ''rm'' ''allow'', mk_rule ''Bash'' ''prefix'' ''rm'' ''deny'']"
    by simp
  have d: "rule_action (mk_rule ''Bash'' ''prefix'' ''rm'' ''deny'') = Some ''deny''"
    by (simp add: mk_rule_def)
  have s: "set [mk_rule ''Bash'' ''prefix'' ''rm'' ''deny'', mk_rule ''Bash'' ''prefix'' ''rm'' ''allow'']
         = set [mk_rule ''Bash'' ''prefix'' ''rm'' ''allow'', mk_rule ''Bash'' ''prefix'' ''rm'' ''deny'']"
    by auto
  from deny_wins [OF i d m] s m a i d show ?thesis by blast
qed



section \<open>Properties of the approval broker\<close>



lemma ev_wait_now: "0 < timeout \<Longrightarrow> flag_at 0 \<Longrightarrow> ev_wait timeout flag_at = 0"
  unfolding ev_wait_def by (simp add: upt_conv_Cons)

lemma still_fields [simp]:
  "while_blocked (still B) t = B"
  "before_decisions_pop (still B) B' = B'"
  "before_events_pop (still B) B' = B'"
  "before_pending_pop (still B) B' = B'"
  by (simp_all add: still_def)


text \<open>
  Claim C3, as stated, fails: the decision of a registered request is not write-once.
  In the scenario the request is surfaced, a first decide call records \<open>allow\<close>, and a
  second decide call for the same request id is accepted and records \<open>deny\<close> in its place;
  the wait that follows answers \<open>deny\<close>.
\<close>

theorem write_once_counterexample:
  "fst decided_once = Ok_decision ''allow''
 \<and> decisions (fst (snd decided_once)) ''X'' = Some ''allow''
 \<and> fst decided_twice = Ok_decision ''deny''
 \<and> decisions (fst (snd decided_twice)) ''X'' = Some ''deny''
 \<and> fst (snd (api_approval_wait (still (fst (snd decided_twice))) ''X'')) = Decision ''deny''"
  by (simp add: decided_twice_def decided_once_def surfaced_def api_approval_request_def
        api_approval_decide_def api_approval_wait_def request_body_def decide_body_def
        empty_broker_def new_provider_def get_or_def Let_def FILE_TOOLS_def inject_event_def
        ev_wait_now always_allow_pattern_def py_or_def)

text \<open>
  Claim C3, amended. A request id has one decision slot. Every decide call with \<open>allow\<close> or
  \<open>deny\<close> for a registered request id is accepted and leaves its own decision in the slot,
  whatever the slot held before. \<open>wait\<close> answers with the decision that it finds in the
  slot when, woken up, it reads the slot (\<open>deny\<close> when the slot is empty), and it removes
  the registration: when no other thread registers the request id anew behind the removal
  of the signal, the signal is gone when \<open>wait\<close> returns, and a decide call made after
  that is rejected and changes nothing. This holds whatever the other threads do to the
  registry while \<open>wait\<close> blocks and between its statements.
\<close>

theorem decide_overwrites_until_read:
  "(events B request_id \<noteq> None \<and> request_id \<noteq> [] \<and> d \<in> {''allow'', ''deny''} \<longrightarrow>
      fst (api_approval_decide B P (decide_body request_id d)) = Ok_decision d
    \<and> decisions (fst (snd (api_approval_decide B P (decide_body request_id d)))) request_id = Some d)
 \<and> (events (while_blocked sched 0) request_id \<noteq> None \<longrightarrow>
      (case api_approval_wait sched request_id of
         (blocked, resp, B') \<Rightarrow>
           resp = Decision (case decisions (before_decisions_pop sched (while_blocked sched blocked))
                                   request_id of
                              None \<Rightarrow> ''deny'' | Some d' \<Rightarrow> d')
         \<and> ((\<forall>B0. events B0 request_id = None
                      \<longrightarrow> events (before_pending_pop sched B0) request_id = None) \<longrightarrow>
               events B' request_id = None
             \<and> snd (api_approval_decide B' P (decide_body request_id d)) = (B', P)
             \<and> fst (api_approval_decide B' P (decide_body request_id d))
                 \<in> {Not_found ''No pending request for this request_id'',
                    Bad_request ''request_id required'',
                    Bad_request ''decision must be allow or deny''})))"
proof (intro conjI impI)
  assume "events B request_id \<noteq> None \<and> request_id \<noteq> [] \<and> d \<in> {''allow'', ''deny''}"
  then show "fst (api_approval_decide B P (decide_body request_id d)) = Ok_decision d"
    and "decisions (fst (snd (api_approval_decide B P (decide_body request_id d)))) request_id = Some d"
    by (auto simp: api_approval_decide_def decide_body_def get_or_def Let_def split: option.splits)
next
  assume "events (while_blocked sched 0) request_id \<noteq> None"
  then obtain f where f: "events (while_blocked sched 0) request_id = Some f" by auto
  obtain blocked resp B' where w: "api_approval_wait sched request_id = (blocked, resp, B')"
    by (cases "api_approval_wait sched request_id")
  have resp: "resp = Decision (case decisions (before_decisions_pop sched (while_blocked sched blocked))
                                      request_id of
                                 None \<Rightarrow> ''deny'' | Some d' \<Rightarrow> d')"
    using w by (auto simp: api_approval_wait_def f Let_def)
  have gone: "events B' request_id = None"
    if "\<forall>B0. events B0 request_id = None \<longrightarrow> events (before_pending_pop sched B0) request_id = None"
    using w that by (auto simp: api_approval_wait_def f Let_def)
  have rejected: "snd (api_approval_decide B' P (decide_body request_id d)) = (B', P)
                \<and> fst (api_approval_decide B' P (decide_body request_id d))
                     \<in> {Not_found ''No pending request for this request_id'',
                        Bad_request ''request_id required'',
                        Bad_request ''decision must be allow or deny''}"
    if "events B' request_id = None"
    using that by (simp add: api_approval_decide_def decide_body_def get_or_def Let_def)
  show "case api_approval_wait sched request_id of
         (blocked, resp, B') \<Rightarrow>
           resp = Decision (case decisions (before_decisions_pop sched (while_blocked sched blocked))
                                   request_id of
                              None \<Rightarrow> ''deny'' | Some d' \<Rightarrow> d')
         \<and> ((\<forall>B0. events B0 request_id = None
                      \<longrightarrow> events (before_pending_pop sched B0) request_id = None) \<longrightarrow>
               events B' request_id = None
             \<and> snd (api_approval_decide B' P (decide_body request_id d)) = (B', P)
             \<and> fst (api_approval_decide B' P (decide_body request_id d))
                 \<in> {Not_found ''No pending request for this request_id'',
                    Bad_request ''request_id required'',
                    Bad_request ''decision must be allow or deny''})"
    unfolding w using resp gone rejected by simp
qed

theorem decide_overwrites_until_read_witness:
  "events (fst (snd decided_once)) ''X'' \<noteq> None \<and> ''X'' \<noteq> [] \<and> ''deny'' \<in> {''allow'', ''deny''}
 \<and> decisions (fst (snd decided_once)) ''X'' = Some ''allow''
 \<and> fst (api_approval_decide (fst (snd decided_once)) (new_provider True) (decide_body ''X'' ''deny''))
     = Ok_decision ''deny''
 \<and> decisions (fst (snd (api_approval_decide (fst (snd decided_once)) (new_provider True)
                          (decide_body ''X'' ''deny'')))) ''X'' = Some ''deny''
 \<and> events (while_blocked (still (fst (snd decided_once))) 0) ''X'' \<noteq> None
 \<and> fst (snd (api_approval_wait (still (fst (snd decided_once))) ''X'')) = Decision ''allow''
 \<and> events (snd (snd (api_approval_wait (still (fst (snd decided_once))) ''X''))) ''X'' = None
 \<and> fst (api_approval_decide (snd (snd (api_approval_wait (still (fst (snd decided_once))) ''X'')))
          (new_provider True) (decide_body ''X'' ''deny''))
     = Not_found ''No pending request for this request_id''"
proof -
  have e: "events (fst (snd decided_once)) ''X'' = Some True"
    and dc: "decisions (fst (snd decided_once)) ''X'' = Some ''allow''"
    by (simp_all add: decided_once_def surfaced_def api_approval_request_def
        api_approval_decide_def request_body_def decide_body_def
        empty_broker_def new_provider_def get_or_def Let_def FILE_TOOLS_def inject_event_def
        always_allow_pattern_def py_or_def)
  have w: "ev_wait 300 (\<lambda>t. events (fst (snd decided_once)) ''X'' = Some True) = 0"
    using e by (simp add: ev_wait_now)
  have quiet: "\<forall>B0. events B0 ''X'' = None
                 \<longrightarrow> events (before_pending_pop (still (fst (snd decided_once))) B0) ''X'' = None"
    by simp
  from decide_overwrites_until_read
         [of "fst (snd decided_once)" "''X''" "''deny''" "new_provider True" "still (fst (snd decided_once))"]
       e dc w quiet
  show ?thesis
    by (simp add: api_approval_wait_def Let_def api_approval_decide_def decide_body_def
          get_or_def)
qed



lemma signal_follows_decision_decide:
  "signal_follows_decision B
     \<Longrightarrow> signal_follows_decision (fst (snd (api_approval_decide B P body)))"
  by (auto simp: signal_follows_decision_def api_approval_decide_def Let_def split: option.splits)

lemma signal_follows_decision_question:
  "signal_follows_decision B
     \<Longrightarrow> signal_follows_decision (fst (snd (api_approval_question B P body)))"
  by (auto simp: signal_follows_decision_def api_approval_question_def Let_def)

lemma signal_follows_decision_answer:
  "signal_follows_decision B \<Longrightarrow> signal_follows_decision (snd (api_approval_answer B body))"
  by (auto simp: signal_follows_decision_def api_approval_answer_def Let_def split: option.splits)

lemma signal_follows_decision_wait:
  "signal_follows_decision B
     \<Longrightarrow> signal_follows_decision (snd (snd (api_approval_wait (still B) request_id)))"
  by (auto simp: signal_follows_decision_def api_approval_wait_def Let_def split: option.splits)











section \<open>Properties of the approval gate client\<close>

text \<open>
  Claim C2. For a gated tool (one that has an executor), when the registration request
  raises, or the long-poll raises, the decision is \<open>deny\<close> and the call is answered with
  the denial without any executor being run.
\<close>

theorem transport_failure_denies:
  assumes "tool_name \<in> EXECUTORS"
      and "post_request env (request_body (new_request_id env) chat tool_name inp) = Raised e
         \<or> get_wait env (new_request_id env) = Raised e"
  shows "request_approval env chat tool_name inp = ''deny''
       \<and> tools_call env chat tool_name inp questions
           = (Tool_result ''[Tool use denied by user]'' True, False)"
proof -
  have d: "request_approval env chat tool_name inp = ''deny''"
    using assms(2) by (auto simp: request_approval_def Let_def split: outcome.splits parsed.splits)
  have "tool_name \<noteq> ''AskUserQuestion''"
    using assms(1) by (auto simp: EXECUTORS_def)
  with assms(1) d show ?thesis
    by (simp add: tools_call_def Let_def)
qed

theorem transport_failure_denies_witness:
  "''Bash'' \<in> EXECUTORS
 \<and> post_request unreachable_env (request_body (new_request_id unreachable_env) ''chat-1'' ''Bash''
       [''command'' \<mapsto> ''ls'']) = Raised ''Connection refused''
 \<and> request_approval unreachable_env ''chat-1'' ''Bash'' [''command'' \<mapsto> ''ls''] = ''deny''
 \<and> tools_call unreachable_env ''chat-1'' ''Bash'' [''command'' \<mapsto> ''ls''] []
     = (Tool_result ''[Tool use denied by user]'' True, False)"
proof -
  have h1: "''Bash'' \<in> EXECUTORS" by (simp add: EXECUTORS_def)
  have h2: "post_request unreachable_env (request_body (new_request_id unreachable_env) ''chat-1'' ''Bash''
       [''command'' \<mapsto> ''ls'']) = Raised ''Connection refused''"
    by (simp add: unreachable_env_def)
  from transport_failure_denies [OF h1 disjI1 [OF h2], of "[]"] h1 h2
  show ?thesis by simp
qed

section \<open>Properties of the consuming loop\<close>

lemma on_result_fields [simp]:
  "yielded (on_result chat ev st) = yielded st"
  "out_done (on_result chat ev st) = out_done st"
  "err_done (on_result chat ev st) = err_done st"
  "was_cancelled (on_result chat ev st) = was_cancelled st"
  "stdout_lines (on_result chat ev st) = stdout_lines st"
  "stderr_lines (on_result chat ev st) = stderr_lines st"
  by (simp_all add: on_result_def Let_def)

lemma on_result_actions:
  "\<exists>more. actions (on_result chat ev st) = actions st @ more
          \<and> filter is_spawn more = [] \<and> filter is_compact more = []"
  by (simp add: on_result_def Let_def save_sessions_def)

lemma handle_ctl:
  "fst (handle jl chat st item) =
     (if item = Cancel then Break else if raises jl item then Raise else Continue)"
  by (cases item) (auto simp: Let_def split: parsed.splits)

lemma handle_yielded:
  "yielded (snd (handle jl chat st item)) = yielded st @ yield_of jl item"
  by (cases item) (auto simp: Let_def split: parsed.splits)

lemma handle_out_done:
  "out_done (snd (handle jl chat st item)) = (out_done st \<or> item = OutEof)"
  by (cases item) (auto simp: Let_def split: parsed.splits)

lemma handle_err_done:
  "err_done (snd (handle jl chat st item)) = (err_done st \<or> item = ErrEof)"
  by (cases item) (auto simp: Let_def split: parsed.splits)

lemma handle_was_cancelled:
  "was_cancelled (snd (handle jl chat st item)) = (was_cancelled st \<or> item = Cancel)"
  by (cases item) (auto simp: Let_def split: parsed.splits)

lemma handle_actions:
  "\<exists>more. actions (snd (handle jl chat st item)) = actions st @ more
          \<and> filter is_spawn more = [] \<and> filter is_compact more = []"
proof (cases item)
  case (Out line)
  then show ?thesis
    using on_result_actions [of chat _ "st\<lparr>stdout_lines := stdout_lines st @ [line]\<rparr>"]
    by (auto simp: Let_def split: parsed.splits)
qed auto


lemma feed_Nil [simp]: "feed jl chat st [] = st"
  by (simp add: feed_def)

lemma feed_Cons [simp]:
  "feed jl chat st (item # items) = feed jl chat (snd (handle jl chat st item)) items"
  by (simp add: feed_def)

lemma feed_yielded:
  "yielded (feed jl chat st items) = yielded st @ concat (map (yield_of jl) items)"
  by (induction items arbitrary: st) (simp_all add: handle_yielded)

lemma feed_out_done:
  "out_done (feed jl chat st items) = (out_done st \<or> OutEof \<in> set items)"
  by (induction items arbitrary: st) (auto simp: handle_out_done)

lemma feed_err_done:
  "err_done (feed jl chat st items) = (err_done st \<or> ErrEof \<in> set items)"
  by (induction items arbitrary: st) (auto simp: handle_err_done)

lemma feed_was_cancelled:
  "was_cancelled (feed jl chat st items) = (was_cancelled st \<or> Cancel \<in> set items)"
  by (induction items arbitrary: st) (auto simp: handle_was_cancelled)


lemma consume_running:
  assumes "\<not> (out_done st \<and> err_done st)"
  shows "consume jl chat st (item # rest) =
           (case handle jl chat st item of
              (Continue, st1) \<Rightarrow> consume jl chat st1 rest
            | (Break, st1) \<Rightarrow> (Broke, st1)
            | (Raise, st1) \<Rightarrow> (Raised_in_loop, st1))"
  using assms by auto

lemma consume_done:
  assumes "out_done st \<and> err_done st"
  shows "consume jl chat st q = (Finished, st)"
  using assms by (cases q) auto

declare consume.simps(2) [simp del]

lemma consume_prefix:
  assumes "Cancel \<notin> set pre" and "\<not> list_ex (raises jl) pre"
      and "\<not> ((out_done st \<or> OutEof \<in> set pre) \<and> (err_done st \<or> ErrEof \<in> set pre))"
  shows "consume jl chat st (pre @ rest) = consume jl chat (feed jl chat st pre) rest"
  using assms
proof (induction pre arbitrary: st)
  case Nil
  then show ?case by simp
next
  case (Cons item pre)
  have running: "\<not> (out_done st \<and> err_done st)" using Cons.prems(3) by auto
  have ctl: "fst (handle jl chat st item) = Continue"
    using Cons.prems(1,2) by (auto simp: handle_ctl)
  let ?st1 = "snd (handle jl chat st item)"
  have step: "consume jl chat st ((item # pre) @ rest) = consume jl chat ?st1 (pre @ rest)"
    using ctl by (cases "handle jl chat st item") (simp add: consume_running [OF running])
  have "\<not> ((out_done ?st1 \<or> OutEof \<in> set pre) \<and> (err_done ?st1 \<or> ErrEof \<in> set pre))"
    using Cons.prems(3) by (auto simp: handle_out_done handle_err_done)
  with Cons.IH [of ?st1] Cons.prems(1,2) step show ?case by simp
qed

lemma consume_actions:
  "\<exists>more. actions (snd (consume jl chat st q)) = actions st @ more
          \<and> filter is_spawn more = [] \<and> filter is_compact more = []"
proof (induction q arbitrary: st)
  case Nil
  then show ?case by simp
next
  case (Cons item q)
  obtain c st1 where h: "handle jl chat st item = (c, st1)" by (cases "handle jl chat st item")
  from handle_actions [of jl chat st item] h obtain m1 where
    m1: "actions st1 = actions st @ m1" "filter is_spawn m1 = []" "filter is_compact m1 = []"
    by auto
  from Cons.IH [of st1] obtain m2 where
    m2: "actions (snd (consume jl chat st1 q)) = actions st1 @ m2"
        "filter is_spawn m2 = []" "filter is_compact m2 = []"
    by auto
  show ?case
  proof (cases "out_done st \<and> err_done st")
    case True
    then show ?thesis by (simp add: consume_done)
  next
    case False
    then show ?thesis using h m1 m2 by (cases c) (auto simp: consume_running [OF False])
  qed
qed

lemma consume_yielded:
  "\<exists>more. yielded (snd (consume jl chat st q)) = yielded st @ more
          \<and> filter recovery_event more = []"
proof (induction q arbitrary: st)
  case Nil
  then show ?case by simp
next
  case (Cons item q)
  obtain c st1 where h: "handle jl chat st item = (c, st1)" by (cases "handle jl chat st item")
  have y1: "yielded st1 = yielded st @ yield_of jl item"
    using handle_yielded [of jl chat st item] h by simp
  have r1: "filter recovery_event (yield_of jl item) = []"
    by (cases item) (auto simp: recovery_event_def)
  from Cons.IH [of st1] obtain m2 where
    m2: "yielded (snd (consume jl chat st1 q)) = yielded st1 @ m2" "filter recovery_event m2 = []"
    by auto
  show ?case
  proof (cases "out_done st \<and> err_done st")
    case True
    then show ?thesis by (simp add: consume_done)
  next
    case False
    then show ?thesis using h y1 r1 m2 by (cases c) (auto simp: consume_running [OF False])
  qed
qed

lemma consume_cancelled:
  assumes "\<not> was_cancelled st" and "Own Cancelled \<notin> set (yielded st)"
  shows "Own Cancelled \<notin> set (butlast (yielded (snd (consume jl chat st q))))
       \<and> (\<not> was_cancelled (snd (consume jl chat st q))
            \<longrightarrow> Own Cancelled \<notin> set (yielded (snd (consume jl chat st q))))
       \<and> (was_cancelled (snd (consume jl chat st q)) \<longleftrightarrow> fst (consume jl chat st q) = Broke)"
  using assms
proof (induction q arbitrary: st)
  case Nil
  then show ?case by (auto dest: in_set_butlastD)
next
  case (Cons item q)
  show ?case
  proof (cases "out_done st \<and> err_done st")
    case True
    then show ?thesis using Cons.prems by (auto simp: consume_done dest: in_set_butlastD)
  next
    case False
    obtain c st1 where h: "handle jl chat st item = (c, st1)" by (cases "handle jl chat st item")
    have c: "c = (if item = Cancel then Break else if raises jl item then Raise else Continue)"
      using handle_ctl [of jl chat st item] h by simp
    have y1: "yielded st1 = yielded st @ yield_of jl item"
      using handle_yielded [of jl chat st item] h by simp
    have w1: "was_cancelled st1 = (was_cancelled st \<or> item = Cancel)"
      using handle_was_cancelled [of jl chat st item] h by simp
    show ?thesis
    proof (cases "item = Cancel")
      case True
      then show ?thesis using h c y1 w1 Cons.prems
        by (simp add: consume_running [OF False] butlast_append)
    next
      case notc: False
      have nc: "Own Cancelled \<notin> set (yield_of jl item)"
        using notc by (cases item) auto
      show ?thesis
      proof (cases "raises jl item")
        case True
        then show ?thesis using h c y1 w1 nc notc Cons.prems
          by (auto simp: consume_running [OF False] dest: in_set_butlastD)
      next
        case nr: False
        have "\<not> was_cancelled st1" "Own Cancelled \<notin> set (yielded st1)"
          using w1 y1 nc notc Cons.prems by auto
        from Cons.IH [OF this] show ?thesis
          using h c notc nr by (simp add: consume_running [OF False])
      qed
    qed
  qed
qed

section \<open>Properties of a run\<close>

lemma teardown_fields [simp]:
  "yielded (teardown chat att st) = yielded st"
  "was_cancelled (teardown chat att st) = was_cancelled st"
  "got_result (teardown chat att st) = got_result st"
  "stdout_lines (teardown chat att st) = stdout_lines st"
  "stderr_lines (teardown chat att st) = stderr_lines st"
  by (simp_all add: teardown_def Let_def)

lemma teardown_actions:
  "\<exists>more. actions (teardown chat att st) = actions st @ more
          \<and> filter is_spawn more = [] \<and> filter is_compact more = []"
  by (simp add: teardown_def Let_def)

lemma start_state_fields [simp]:
  "yielded (start_state w P a)
     = [Own (Debug_cmd (build_cmd w P (model a) (claude_session_of P (chat_id a))))]"
  "actions (start_state w P a)
     = [Spawn (build_cmd w P (model a) (claude_session_of P (chat_id a))),
        Write_user_message (prompt a) (images a)]"
  "out_done (start_state w P a) = False"
  "err_done (start_state w P a) = False"
  "was_cancelled (start_state w P a) = False"
  "stdin_closed (start_state w P a) = False"
  "prov (start_state w P a) = register P (chat_id a)"
  by (simp_all add: start_state_def loop_init_def Let_def)

lemma loop_run_log:
  "filter is_spawn (actions (snd (loop_run w P a n)))
     = [Spawn (build_cmd w P (model a) (claude_session_of P (chat_id a)))]"
  "filter is_compact (actions (snd (loop_run w P a n))) = []"
  "filter recovery_event (yielded (snd (loop_run w P a n))) = []"
proof -
  from consume_actions [of "json_loads w" "chat_id a" "start_state w P a" "arrivals (attempts w n)"]
  obtain more where
    "actions (snd (loop_run w P a n)) = actions (start_state w P a) @ more"
    "filter is_spawn more = []" "filter is_compact more = []"
    by (auto simp: loop_run_def)
  then show "filter is_spawn (actions (snd (loop_run w P a n)))
     = [Spawn (build_cmd w P (model a) (claude_session_of P (chat_id a)))]"
    and "filter is_compact (actions (snd (loop_run w P a n))) = []"
    by simp_all
  from consume_yielded [of "json_loads w" "chat_id a" "start_state w P a" "arrivals (attempts w n)"]
  obtain ys where
    "yielded (snd (loop_run w P a n)) = yielded (start_state w P a) @ ys"
    "filter recovery_event ys = []"
    by (auto simp: loop_run_def)
  then show "filter recovery_event (yielded (snd (loop_run w P a n))) = []"
    by (simp add: recovery_event_def)
qed

lemma after_loop_log:
  "filter is_spawn (actions (after_loop w P a n))
     = [Spawn (build_cmd w P (model a) (claude_session_of P (chat_id a)))]"
  "filter is_compact (actions (after_loop w P a n)) = []"
  "filter recovery_event (yielded (after_loop w P a n)) = []"
proof -
  from teardown_actions [of "chat_id a" "attempts w n" "snd (loop_run w P a n)"]
  obtain more where
    "actions (after_loop w P a n) = actions (snd (loop_run w P a n)) @ more"
    "filter is_spawn more = []" "filter is_compact more = []"
    by (auto simp: after_loop_def)
  then show "filter is_spawn (actions (after_loop w P a n))
     = [Spawn (build_cmd w P (model a) (claude_session_of P (chat_id a)))]"
    and "filter is_compact (actions (after_loop w P a n)) = []"
    by (simp_all add: loop_run_log)
  show "filter recovery_event (yielded (after_loop w P a n)) = []"
    by (simp add: after_loop_def loop_run_log)
qed

lemma loop_run_cancelled:
  "Own Cancelled \<notin> set (butlast (yielded (snd (loop_run w P a n))))"
  "\<not> was_cancelled (snd (loop_run w P a n))
     \<Longrightarrow> Own Cancelled \<notin> set (yielded (snd (loop_run w P a n)))"
  "was_cancelled (snd (loop_run w P a n)) \<longleftrightarrow> fst (loop_run w P a n) = Broke"
  using consume_cancelled [of "start_state w P a" "json_loads w" "chat_id a" "arrivals (attempts w n)"]
  by (simp_all add: loop_run_def)

text \<open>A call marked as a retry is its one attempt.\<close>

lemma retry_unfold:
  assumes "is_retry a"
  shows "run_stream_impl w P a n =
     (let att = attempts w n;
          cmd = build_cmd w P (model a) (claude_session_of P (chat_id a));
          st = after_loop w P a n
      in
      case spawn att of
        File_not_found is_dir \<Rightarrow>
          \<lparr>yields = [Own (Debug_cmd cmd),
                     Own (if workspace a \<noteq> [] \<and> \<not> is_dir then Error_workdir (workspace a)
                          else Error_cli_not_found (claude_cli P))],
           final = P, effects = [Spawn cmd], ending = Returns\<rparr>
      | Spawn_error \<Rightarrow>
          \<lparr>yields = [Own (Debug_cmd cmd)], final = P, effects = [Spawn cmd], ending = Raises\<rparr>
      | Spawned \<Rightarrow>
          (case stdin_write att of
             Raised exc \<Rightarrow>
               \<lparr>yields = [Own (Debug_cmd cmd), Own (Error_stdin_write exc)], final = P,
                effects = [Spawn cmd, Write_user_message (prompt a) (images a), Kill],
                ending = Returns\<rparr>
           | Returned _ \<Rightarrow>
                if fst (loop_run w P a n) = Blocked then
                  \<lparr>yields = yielded (snd (loop_run w P a n)), final = prov (snd (loop_run w P a n)),
                   effects = actions (snd (loop_run w P a n)), ending = Hangs\<rparr>
                else if fst (loop_run w P a n) = Raised_in_loop then
                  \<lparr>yields = yielded st, final = prov st, effects = actions st, ending = Raises\<rparr>
                else if was_cancelled st then
                  \<lparr>yields = yielded st,
                   final = (if chat_id a \<noteq> [] then
                              (prov st)\<lparr>cancelled_prompts := (cancelled_prompts (prov st))
                                          (chat_id a \<mapsto> py_or (original_prompt a) (prompt a))\<rparr>
                            else prov st),
                   effects = actions st, ending = Returns\<rparr>
                else
                  \<lparr>yields = yielded st @
                             (if \<not> got_result st \<and> stdout_lines st = []
                              then [Own (Error_no_stdout (returncode att) (stderr_lines st))]
                              else []),
                   final = prov st, effects = actions st, ending = Returns\<rparr>))"
  using assms
  by (subst run_stream_impl.simps)
     (simp add: Let_def prompt_too_long_def split: spawn_outcome.splits outcome.splits)

lemma retry_log:
  assumes "is_retry a"
  shows "filter is_compact (effects (run_stream_impl w P a n)) = []"
    and "filter is_spawn (effects (run_stream_impl w P a n))
           = [Spawn (build_cmd w P (model a) (claude_session_of P (chat_id a)))]"
    and "filter recovery_event (yields (run_stream_impl w P a n)) = []"
    and "Own Cancelled \<notin> set (butlast (yields (run_stream_impl w P a n)))"
proof -
  note facts = loop_run_log [of w P a n] after_loop_log [of w P a n]
  show "filter is_compact (effects (run_stream_impl w P a n)) = []"
    using facts
    by (simp add: retry_unfold [OF assms] Let_def split: spawn_outcome.splits outcome.splits)
  show "filter is_spawn (effects (run_stream_impl w P a n))
           = [Spawn (build_cmd w P (model a) (claude_session_of P (chat_id a)))]"
    using facts
    by (simp add: retry_unfold [OF assms] Let_def split: spawn_outcome.splits outcome.splits)
  show "filter recovery_event (yields (run_stream_impl w P a n)) = []"
    using facts
    by (simp add: retry_unfold [OF assms] Let_def recovery_event_def
             split: spawn_outcome.splits outcome.splits)
  have y: "yielded (after_loop w P a n) = yielded (snd (loop_run w P a n))"
    and c: "was_cancelled (after_loop w P a n) = was_cancelled (snd (loop_run w P a n))"
    by (simp_all add: after_loop_def)
  show "Own Cancelled \<notin> set (butlast (yields (run_stream_impl w P a n)))"
    using loop_run_cancelled(1,2) [of w P a n] y c
    by (auto simp: retry_unfold [OF assms] Let_def butlast_append
             split: spawn_outcome.splits outcome.splits dest: in_set_butlastD)
qed

lemma notin_butlast_append:
  "x \<notin> set xs \<Longrightarrow> x \<notin> set (butlast ys) \<Longrightarrow> x \<notin> set (butlast (xs @ ys))"
  by (auto simp: butlast_append dest: in_set_butlastD)

lemma yield_from_fields [simp]:
  "yields (yield_from ys acts r) = ys @ yields r"
  "effects (yield_from ys acts r) = acts @ effects r"
  "ending (yield_from ys acts r) = ending r"
  "final (yield_from ys acts r) = final r"
  by (simp_all add: yield_from_def)

lemma after_loop_fields [simp]:
  "yielded (after_loop w P a n) = yielded (snd (loop_run w P a n))"
  "was_cancelled (after_loop w P a n) = was_cancelled (snd (loop_run w P a n))"
  "got_result (after_loop w P a n) = got_result (snd (loop_run w P a n))"
  "stdout_lines (after_loop w P a n) = stdout_lines (snd (loop_run w P a n))"
  "stderr_lines (after_loop w P a n) = stderr_lines (snd (loop_run w P a n))"
  by (simp_all add: after_loop_def)

lemma after_loop_actions:
  "\<exists>more. actions (after_loop w P a n) = actions (snd (loop_run w P a n)) @ more"
  using teardown_actions [of "chat_id a" "attempts w n" "snd (loop_run w P a n)"]
  by (auto simp: after_loop_def)

text \<open>In the output of any run the cancelled event can only be the last line.\<close>

lemma cancel_last:
  "Own Cancelled \<notin> set (butlast (yields (run_stream_impl w P a n)))"
proof (cases "is_retry a")
  case True
  then show ?thesis by (rule retry_log(4))
next
  case False
  have r: "Own Cancelled
             \<notin> set (butlast (yields (run_stream_impl w P' (a\<lparr>is_retry := True, original_prompt := []\<rparr>) (Suc n))))"
    for P'
    by (rule retry_log(4)) simp
  have pre: "\<not> was_cancelled (snd (loop_run w P a n)) \<Longrightarrow>
             Own Cancelled \<notin> set (yielded (snd (loop_run w P a n)) @ [Own e1, Own e2])"
    if "e1 \<noteq> Cancelled" "e2 \<noteq> Cancelled" for e1 e2
    using loop_run_cancelled(2) [of w P a n] that by simp
  show ?thesis
    using loop_run_cancelled(1,2) [of w P a n]
          notin_butlast_append [OF pre [of Session_compacting Session_compacted] r]
          notin_butlast_append [OF pre [of Session_compacting Session_reset] r]
    by (subst run_stream_impl.simps)
       (auto simp: Let_def butlast_append
             split: spawn_outcome.splits outcome.splits dest: in_set_butlastD)
qed

text \<open>Once the subprocess runs, the output and the log of a call extend those of its loop.\<close>

lemma run_extends_loop:
  assumes "spawn (attempts w n) = Spawned" and "stdin_write (attempts w n) = Returned u"
  shows "\<exists>ys acts. yields (run_stream_impl w P a n) = yielded (snd (loop_run w P a n)) @ ys
                  \<and> effects (run_stream_impl w P a n) = actions (snd (loop_run w P a n)) @ acts"
  using assms after_loop_actions [of w P a n]
  by (subst run_stream_impl.simps, subst (2) run_stream_impl.simps)
     (auto simp: Let_def)

lemma dequeues_all_running:
  assumes "dequeues_all jl pre"
  shows "\<not> (out_done (feed jl chat (start_state w P a) pre)
            \<and> err_done (feed jl chat (start_state w P a) pre))"
  using assms by (auto simp: dequeues_all_def feed_out_done feed_err_done)

text \<open>The loop of a run on a queue of which it dequeues all of \<open>pre\<close> and then \<open>item\<close>.\<close>

lemma loop_run_split:
  assumes "arrivals (attempts w n) = pre @ item # post" and "dequeues_all (json_loads w) pre"
  shows "loop_run w P a n =
           (case handle (json_loads w) (chat_id a)
                   (feed (json_loads w) (chat_id a) (start_state w P a) pre) item of
              (Continue, st1) \<Rightarrow> consume (json_loads w) (chat_id a) st1 post
            | (Break, st1) \<Rightarrow> (Broke, st1)
            | (Raise, st1) \<Rightarrow> (Raised_in_loop, st1))"
proof -
  have "consume (json_loads w) (chat_id a) (start_state w P a) (pre @ item # post)
        = consume (json_loads w) (chat_id a)
            (feed (json_loads w) (chat_id a) (start_state w P a) pre) (item # post)"
    using assms(2) by (intro consume_prefix) (auto simp: dequeues_all_def)
  then show ?thesis
    using assms(1) dequeues_all_running [OF assms(2), of "chat_id a" w P a]
    by (simp add: loop_run_def consume_running)
qed

lemma loop_run_cancel:
  assumes "arrivals (attempts w n) = pre @ Cancel # post" and "dequeues_all (json_loads w) pre"
  shows "loop_run w P a n =
           (Broke, (feed (json_loads w) (chat_id a) (start_state w P a) pre)
                     \<lparr>was_cancelled := True,
                      yielded := yielded (feed (json_loads w) (chat_id a) (start_state w P a) pre)
                                 @ [Own Cancelled]\<rparr>)"
  by (simp add: loop_run_split [OF assms])

text \<open>A call whose loop breaks on the cancel sentinel.\<close>

lemma cancelled_run:
  assumes "spawn (attempts w n) = Spawned" and "stdin_write (attempts w n) = Returned u"
      and "loop_run w P a n = (Broke, st)"
  shows "run_stream_impl w P a n =
           \<lparr>yields = yielded st,
            final = (if chat_id a \<noteq> [] then
                       (prov (teardown (chat_id a) (attempts w n) st))
                         \<lparr>cancelled_prompts :=
                            (cancelled_prompts (prov (teardown (chat_id a) (attempts w n) st)))
                              (chat_id a \<mapsto> py_or (original_prompt a) (prompt a))\<rparr>
                     else prov (teardown (chat_id a) (attempts w n) st)),
            effects = actions (teardown (chat_id a) (attempts w n) st),
            ending = Returns\<rparr>"
proof -
  have "was_cancelled st"
    using loop_run_cancelled(3) [of w P a n] assms(3) by simp
  then show ?thesis
    using assms
    by (subst run_stream_impl.simps) (simp add: Let_def after_loop_def)
qed

lemma cancelled_run_facts:
  assumes "spawn (attempts w n) = Spawned" and "stdin_write (attempts w n) = Returned u"
      and "arrivals (attempts w n) = pre @ Cancel # post" and "dequeues_all (json_loads w) pre"
  shows "yields (run_stream_impl w P a n)
           = Own (Debug_cmd (build_cmd w P (model a) (claude_session_of P (chat_id a))))
             # concat (map (yield_of (json_loads w)) pre) @ [Own Cancelled]"
    and "ending (run_stream_impl w P a n) = Returns"
    and "run_stream_impl w P a n
           = run_stream_impl
               (w\<lparr>attempts := (attempts w)(n := (attempts w n)\<lparr>arrivals := pre @ [Cancel]\<rparr>)\<rparr>) P a n"
proof -
  let ?w' = "w\<lparr>attempts := (attempts w)(n := (attempts w n)\<lparr>arrivals := pre @ [Cancel]\<rparr>)\<rparr>"
  note lr = loop_run_cancel [OF assms(3,4), of P a]
  show "yields (run_stream_impl w P a n)
           = Own (Debug_cmd (build_cmd w P (model a) (claude_session_of P (chat_id a))))
             # concat (map (yield_of (json_loads w)) pre) @ [Own Cancelled]"
    by (simp add: cancelled_run [OF assms(1,2) lr] feed_yielded)
  show "ending (run_stream_impl w P a n) = Returns"
    by (simp add: cancelled_run [OF assms(1,2) lr])
  have s: "start_state ?w' P a = start_state w P a"
    by (simp add: start_state_def build_cmd_def)
  have a': "arrivals (attempts ?w' n) = pre @ Cancel # []"
    and d': "dequeues_all (json_loads ?w') pre"
    and sp: "spawn (attempts ?w' n) = Spawned"
    and wr: "stdin_write (attempts ?w' n) = Returned u"
    using assms by simp_all
  note lr' = loop_run_cancel [OF a' d', of P a]
  show "run_stream_impl w P a n = run_stream_impl ?w' P a n"
    by (simp add: cancelled_run [OF assms(1,2) lr] cancelled_run [OF sp wr lr'] s teardown_def)
qed

lemma feed_append:
  "feed jl chat st (xs @ ys) = feed jl chat (feed jl chat st xs) ys"
  by (simp add: feed_def)

lemma handle_lines:
  "stdout_lines (snd (handle jl chat st item)) = stdout_lines st @ stdout_line item"
  "stderr_lines (snd (handle jl chat st item)) = stderr_lines st @ stderr_line item"
  "got_result (snd (handle jl chat st item)) = (got_result st \<or> is_result jl item)"
  by (cases item; auto simp: Let_def on_result_def split: parsed.splits)+

lemma feed_lines:
  "stdout_lines (feed jl chat st items) = stdout_lines st @ concat (map stdout_line items)"
  "stderr_lines (feed jl chat st items) = stderr_lines st @ concat (map stderr_line items)"
  "got_result (feed jl chat st items) = (got_result st \<or> list_ex (is_result jl) items)"
  by (induction items arbitrary: st) (auto simp: handle_lines)

lemma loop_run_finish:
  assumes "arrivals (attempts w n) = pre @ item # post"
      and "finishes_after (json_loads w) pre item"
  shows "loop_run w P a n
           = (Finished, feed (json_loads w) (chat_id a) (start_state w P a) (pre @ [item]))"
proof -
  let ?st = "feed (json_loads w) (chat_id a) (start_state w P a) pre"
  have dq: "dequeues_all (json_loads w) pre"
    using assms(2) by (simp add: finishes_after_def)
  obtain c st1 where h: "handle (json_loads w) (chat_id a) ?st item = (c, st1)"
    by (cases "handle (json_loads w) (chat_id a) ?st item")
  have c: "c = Continue"
    using assms(2) handle_ctl [of "json_loads w" "chat_id a" ?st item] h
    by (auto simp: finishes_after_def)
  have d: "out_done st1 \<and> err_done st1"
    using assms(2) h handle_out_done [of "json_loads w" "chat_id a" ?st item]
          handle_err_done [of "json_loads w" "chat_id a" ?st item]
    by (auto simp: finishes_after_def feed_out_done feed_err_done)
  show ?thesis
    using loop_run_split [OF assms(1) dq, of P a] h c
    by (simp add: consume_done [OF d] feed_append)
qed

text \<open>A call whose loop ends normally and that does not start a recovery.\<close>

lemma finished_run:
  assumes "spawn (attempts w n) = Spawned" and "stdin_write (attempts w n) = Returned u"
      and "loop_run w P a n = (Finished, st)"
      and "\<not> prompt_too_long w a (claude_session_of P (chat_id a)) (after_loop w P a n)"
  shows "run_stream_impl w P a n =
           \<lparr>yields = yielded st @
                      (if \<not> got_result st \<and> stdout_lines st = []
                       then [Own (Error_no_stdout (returncode (attempts w n)) (stderr_lines st))]
                       else []),
            final = prov (teardown (chat_id a) (attempts w n) st),
            effects = actions (teardown (chat_id a) (attempts w n) st),
            ending = Returns\<rparr>"
proof -
  have "\<not> was_cancelled st"
    using loop_run_cancelled(3) [of w P a n] assms(3) by simp
  then show ?thesis
    using assms
    by (subst run_stream_impl.simps) (simp add: Let_def after_loop_def)
qed

lemma finished_run_yields:
  assumes "spawn (attempts w n) = Spawned" and "stdin_write (attempts w n) = Returned u"
      and "arrivals (attempts w n) = pre @ item # post"
      and "finishes_after (json_loads w) pre item"
      and "\<not> prompt_too_long w a (claude_session_of P (chat_id a)) (after_loop w P a n)"
  shows "yields (run_stream_impl w P a n)
           = Own (Debug_cmd (build_cmd w P (model a) (claude_session_of P (chat_id a))))
             # concat (map (yield_of (json_loads w)) pre)
             @ (if \<not> list_ex (is_result (json_loads w)) pre \<and> concat (map stdout_line pre) = []
                then [Own (Error_no_stdout (returncode (attempts w n))
                             (concat (map stderr_line pre)))]
                else [])"
    and "ending (run_stream_impl w P a n) = Returns"
proof -
  note lr = loop_run_finish [OF assms(3,4), of P a]
  have i: "item = OutEof \<or> item = ErrEof"
    using assms(4) by (simp add: finishes_after_def)
  have s: "got_result (start_state w P a) = False" "stdout_lines (start_state w P a) = []"
          "stderr_lines (start_state w P a) = []"
    by (simp_all add: start_state_def loop_init_def Let_def)
  show "yields (run_stream_impl w P a n)
           = Own (Debug_cmd (build_cmd w P (model a) (claude_session_of P (chat_id a))))
             # concat (map (yield_of (json_loads w)) pre)
             @ (if \<not> list_ex (is_result (json_loads w)) pre \<and> concat (map stdout_line pre) = []
                then [Own (Error_no_stdout (returncode (attempts w n))
                             (concat (map stderr_line pre)))]
                else [])"
    using i by (auto simp: finished_run [OF assms(1,2) lr assms(5)] feed_yielded feed_lines s)
  show "ending (run_stream_impl w P a n) = Returns"
    by (simp add: finished_run [OF assms(1,2) lr assms(5)])
qed

lemma retry_not_too_long:
  "is_retry a \<Longrightarrow> \<not> prompt_too_long w a cs st"
  by (simp add: prompt_too_long_def)


lemma register_fields [simp]:
  "session_map (register P chat) = session_map P"
  "code_folders (register P chat) = code_folders P"
  "sessions_file (register P chat) = sessions_file P"
  by (simp_all add: register_def)

lemma save_sessions_log [simp]:
  "filter is_spawn (save_sessions P) = []"
  "filter is_compact (save_sessions P) = []"
  by (simp_all add: save_sessions_def)

text \<open>The other ways in which a call ends.\<close>

lemma spawn_failed_run:
  assumes "spawn (attempts w n) \<noteq> Spawned"
  shows "effects (run_stream_impl w P a n)
           = [Spawn (build_cmd w P (model a) (claude_session_of P (chat_id a)))]"
  using assms
  by (subst run_stream_impl.simps) (cases "spawn (attempts w n)"; simp add: Let_def)

lemma write_failed_run:
  assumes "spawn (attempts w n) = Spawned" and "stdin_write (attempts w n) = Raised exc"
  shows "effects (run_stream_impl w P a n)
           = [Spawn (build_cmd w P (model a) (claude_session_of P (chat_id a))),
              Write_user_message (prompt a) (images a), Kill]"
  using assms
  by (subst run_stream_impl.simps) (simp add: Let_def)

lemma blocked_run:
  assumes "spawn (attempts w n) = Spawned" and "stdin_write (attempts w n) = Returned u"
      and "fst (loop_run w P a n) = Blocked"
  shows "effects (run_stream_impl w P a n) = actions (snd (loop_run w P a n))"
  using assms
  by (subst run_stream_impl.simps) (simp add: Let_def)

lemma raised_run:
  assumes "spawn (attempts w n) = Spawned" and "stdin_write (attempts w n) = Returned u"
      and "fst (loop_run w P a n) = Raised_in_loop"
  shows "effects (run_stream_impl w P a n) = actions (after_loop w P a n)"
  using assms
  by (subst run_stream_impl.simps) (simp add: Let_def)

lemma recovering_run:
  assumes "spawn (attempts w n) = Spawned" and "stdin_write (attempts w n) = Returned u"
      and "fst (loop_run w P a n) = Finished"
      and "prompt_too_long w a (claude_session_of P (chat_id a)) (after_loop w P a n)"
  shows "\<exists>ys acts P'.
           run_stream_impl w P a n
             = yield_from (yielded (after_loop w P a n) @ ys) (actions (after_loop w P a n) @ acts)
                 (run_stream_impl w P' (a\<lparr>is_retry := True, original_prompt := []\<rparr>) (Suc n))
         \<and> length (filter is_compact acts) = 1 \<and> filter is_spawn acts = []"
proof -
  have nc: "\<not> was_cancelled (snd (loop_run w P a n))"
    using loop_run_cancelled(3) [of w P a n] assms(3) by simp
  show ?thesis
  proof (cases "try_compact_session w (prov (after_loop w P a n))
                  (claude_session_of P (chat_id a)) (model a)")
    case True
    have "run_stream_impl w P a n
          = yield_from (yielded (after_loop w P a n) @ [Own Session_compacting, Own Session_compacted])
              (actions (after_loop w P a n)
               @ [Run_compact (compact_cmd (prov (after_loop w P a n))
                    (claude_session_of P (chat_id a)) (model a))])
              (run_stream_impl w (prov (after_loop w P a n))
                 (a\<lparr>is_retry := True, original_prompt := []\<rparr>) (Suc n))"
      using assms nc True
      by (subst run_stream_impl.simps) (simp add: Let_def)
    then show ?thesis by (intro exI conjI) (assumption, simp_all)
  next
    case False
    have "run_stream_impl w P a n
          = yield_from (yielded (after_loop w P a n) @ [Own Session_compacting, Own Session_reset])
              (actions (after_loop w P a n)
               @ ([Run_compact (compact_cmd (prov (after_loop w P a n))
                     (claude_session_of P (chat_id a)) (model a)),
                   Drop_session (chat_id a)]
                  @ save_sessions ((prov (after_loop w P a n))
                       \<lparr>session_map := (session_map (prov (after_loop w P a n)))(chat_id a := None)\<rparr>)))
              (run_stream_impl w
                 ((prov (after_loop w P a n))
                    \<lparr>session_map := (session_map (prov (after_loop w P a n)))(chat_id a := None)\<rparr>)
                 (a\<lparr>is_retry := True, original_prompt := []\<rparr>) (Suc n))"
      using assms nc False
      by (subst run_stream_impl.simps) (simp add: Let_def)
    then show ?thesis by (intro exI conjI) (assumption, simp_all)
  qed
qed

text \<open>Any call spawns at most two subprocesses and runs at most one compaction.\<close>

lemma recovery_bounded:
  "length (filter is_spawn (effects (run_stream_impl w P a n))) \<le> 2
 \<and> length (filter is_compact (effects (run_stream_impl w P a n))) \<le> 1"
proof (cases "spawn (attempts w n) = Spawned")
  case False
  then show ?thesis by (simp add: spawn_failed_run)
next
  case sp: True
  show ?thesis
  proof (cases "stdin_write (attempts w n)")
    case (Raised exc)
    then show ?thesis by (simp add: write_failed_run [OF sp])
  next
    case wr: (Returned u)
    show ?thesis
    proof (cases "fst (loop_run w P a n)")
      case Blocked
      then show ?thesis by (simp add: blocked_run [OF sp wr] loop_run_log)
    next
      case Raised_in_loop
      then show ?thesis by (simp add: raised_run [OF sp wr] after_loop_log)
    next
      case Broke
      then obtain st where lr: "loop_run w P a n = (Broke, st)"
        by (cases "loop_run w P a n") simp
      have "effects (run_stream_impl w P a n) = actions (after_loop w P a n)"
        by (simp add: cancelled_run [OF sp wr lr] after_loop_def lr)
      then show ?thesis by (simp add: after_loop_log)
    next
      case Finished
      then obtain st where lr: "loop_run w P a n = (Finished, st)"
        by (cases "loop_run w P a n") simp
      show ?thesis
      proof (cases "prompt_too_long w a (claude_session_of P (chat_id a)) (after_loop w P a n)")
        case False
        have "effects (run_stream_impl w P a n) = actions (after_loop w P a n)"
          by (simp add: finished_run [OF sp wr lr False] after_loop_def lr)
        then show ?thesis by (simp add: after_loop_log)
      next
        case True
        from recovering_run [OF sp wr Finished True] obtain ys acts P' where
          r: "run_stream_impl w P a n
             = yield_from (yielded (after_loop w P a n) @ ys) (actions (after_loop w P a n) @ acts)
                 (run_stream_impl w P' (a\<lparr>is_retry := True, original_prompt := []\<rparr>) (Suc n))"
          and c: "length (filter is_compact acts) = 1" "filter is_spawn acts = []"
          by blast
        have rt: "is_retry (a\<lparr>is_retry := True, original_prompt := []\<rparr>)" by simp
        show ?thesis
          by (simp add: r c after_loop_log retry_log(1,2) [OF rt])
      qed
    qed
  qed
qed

section \<open>The claims about a run\<close>

text \<open>
  Claim C5. In the output of every run the cancelled event of the run's own can only be the
  last line, so it occurs at most once and nothing follows it. When the loop of a call
  dequeues the cancel sentinel (the subprocess was spawned and given the prompt, and the loop
  dequeues all of \<open>pre\<close> and then the sentinel), the call yields what the items of \<open>pre\<close>
  yield and then the cancelled event, and returns; it yields no recovery event, spawns no
  second subprocess and runs no compaction; and whatever the queue holds after the sentinel
  (\<open>post\<close>), end-of-file markers or not, changes nothing.
\<close>

theorem cancel_is_terminal:
  "Own Cancelled \<notin> set (butlast (yields (run_stream_impl w P a n)))
 \<and> (spawn (attempts w n) = Spawned \<and> stdin_write (attempts w n) = Returned u
    \<and> arrivals (attempts w n) = pre @ Cancel # post \<and> dequeues_all (json_loads w) pre \<longrightarrow>
      yields (run_stream_impl w P a n)
        = Own (Debug_cmd (build_cmd w P (model a) (claude_session_of P (chat_id a))))
          # concat (map (yield_of (json_loads w)) pre) @ [Own Cancelled]
    \<and> ending (run_stream_impl w P a n) = Returns
    \<and> filter recovery_event (yields (run_stream_impl w P a n)) = []
    \<and> filter is_compact (effects (run_stream_impl w P a n)) = []
    \<and> filter is_spawn (effects (run_stream_impl w P a n))
        = [Spawn (build_cmd w P (model a) (claude_session_of P (chat_id a)))]
    \<and> run_stream_impl w P a n
        = run_stream_impl
            (w\<lparr>attempts := (attempts w)(n := (attempts w n)\<lparr>arrivals := pre @ [Cancel]\<rparr>)\<rparr>) P a n)"
proof (intro conjI impI)
  show "Own Cancelled \<notin> set (butlast (yields (run_stream_impl w P a n)))"
    by (rule cancel_last)
next
  assume h: "spawn (attempts w n) = Spawned \<and> stdin_write (attempts w n) = Returned u
    \<and> arrivals (attempts w n) = pre @ Cancel # post \<and> dequeues_all (json_loads w) pre"
  then have sp: "spawn (attempts w n) = Spawned" and wr: "stdin_write (attempts w n) = Returned u"
    and ar: "arrivals (attempts w n) = pre @ Cancel # post"
    and dq: "dequeues_all (json_loads w) pre"
    by simp_all
  note lr = loop_run_cancel [OF ar dq, of P a]
  note run = cancelled_run [OF sp wr lr]
  show "yields (run_stream_impl w P a n)
        = Own (Debug_cmd (build_cmd w P (model a) (claude_session_of P (chat_id a))))
          # concat (map (yield_of (json_loads w)) pre) @ [Own Cancelled]"
    by (rule cancelled_run_facts(1) [OF sp wr ar dq])
  show "ending (run_stream_impl w P a n) = Returns"
    by (rule cancelled_run_facts(2) [OF sp wr ar dq])
  show "run_stream_impl w P a n
        = run_stream_impl
            (w\<lparr>attempts := (attempts w)(n := (attempts w n)\<lparr>arrivals := pre @ [Cancel]\<rparr>)\<rparr>) P a n"
    by (rule cancelled_run_facts(3) [OF sp wr ar dq])
  have y: "yields (run_stream_impl w P a n) = yielded (after_loop w P a n)"
    by (simp add: run lr)
  have e: "effects (run_stream_impl w P a n) = actions (after_loop w P a n)"
    by (simp add: run after_loop_def lr)
  show "filter recovery_event (yields (run_stream_impl w P a n)) = []"
    unfolding y by (rule after_loop_log(3))
  show "filter is_compact (effects (run_stream_impl w P a n)) = []"
    unfolding e by (rule after_loop_log(2))
  show "filter is_spawn (effects (run_stream_impl w P a n))
        = [Spawn (build_cmd w P (model a) (claude_session_of P (chat_id a)))]"
    unfolding e by (rule after_loop_log(1))
qed

theorem cancel_is_terminal_witness:
  "spawn (attempts (scenario_world [Out ''working'', OutEof, Cancel, Err ''late'', ErrEof]) 0) = Spawned
 \<and> dequeues_all scenario_loads [Out ''working'', OutEof]
 \<and> yields (run_stream_impl (scenario_world [Out ''working'', OutEof, Cancel, Err ''late'', ErrEof])
             (new_provider True) (scenario_args ''chat-1'' False) 0)
     = [Own (Debug_cmd (build_cmd (scenario_world [Out ''working'', OutEof, Cancel, Err ''late'', ErrEof])
                          (new_provider True) [] [])),
        Stdout ''working'', Own Cancelled]
 \<and> ending (run_stream_impl (scenario_world [Out ''working'', OutEof, Cancel, Err ''late'', ErrEof])
             (new_provider True) (scenario_args ''chat-1'' False) 0) = Returns"
proof -
  let ?w = "scenario_world [Out ''working'', OutEof, Cancel, Err ''late'', ErrEof]"
  have sp: "spawn (attempts ?w 0) = Spawned"
    and wr: "stdin_write (attempts ?w 0) = Returned ()"
    and ar: "arrivals (attempts ?w 0) = [Out ''working'', OutEof] @ Cancel # [Err ''late'', ErrEof]"
    and jl: "json_loads ?w = scenario_loads"
    by (simp_all add: scenario_world_def)
  have dq: "dequeues_all scenario_loads [Out ''working'', OutEof]"
    by (simp add: dequeues_all_def scenario_loads_def result_line_def)
  have y: "concat (map (yield_of scenario_loads) [Out ''working'', OutEof]) = [Stdout ''working'']"
    by (simp add: scenario_loads_def result_line_def)
  have cs: "claude_session_of (new_provider True) ''chat-1'' = []"
    by (simp add: claude_session_of_def new_provider_def)
  have md: "model (scenario_args ''chat-1'' False) = []"
    and ch: "chat_id (scenario_args ''chat-1'' False) = ''chat-1''"
    by (simp_all add: scenario_args_def)
  have h: "spawn (attempts ?w 0) = Spawned \<and> stdin_write (attempts ?w 0) = Returned ()
         \<and> arrivals (attempts ?w 0) = [Out ''working'', OutEof] @ Cancel # [Err ''late'', ErrEof]
         \<and> dequeues_all (json_loads ?w) [Out ''working'', OutEof]"
    using sp wr ar dq jl by simp
  note t = cancel_is_terminal [of ?w "new_provider True" "scenario_args ''chat-1'' False" 0 "()"
         "[Out ''working'', OutEof]" "[Err ''late'', ErrEof]", THEN conjunct2, THEN mp, OF h]
  have "yields (run_stream_impl ?w (new_provider True) (scenario_args ''chat-1'' False) 0)
          = [Own (Debug_cmd (build_cmd ?w (new_provider True) [] [])), Stdout ''working'', Own Cancelled]"
    using t [THEN conjunct1] by (simp add: md ch cs jl scenario_loads_def result_line_def)
  moreover
  have "ending (run_stream_impl ?w (new_provider True) (scenario_args ''chat-1'' False) 0) = Returns"
    using t [THEN conjunct2, THEN conjunct1] .
  ultimately
  show ?thesis using sp dq by simp
qed

text \<open>
  Claim C6, as stated, fails in its last part: a retried run whose output matches a
  too-large signature need not surface an error. The retry below resumes session \<open>s-0\<close>;
  its subprocess prints one stdout line that holds the signature \<open>context window\<close> and ends
  without a \<open>result\<close> event. The run yields that line and no error event.
\<close>

theorem retry_without_error_counterexample:
  "is_retry (scenario_args ''chat-1'' True)
 \<and> claude_session_of resumed_provider ''chat-1'' = ''s-0''
 \<and> ''context window'' \<in> set PROMPT_TOO_LONG_PATTERNS
 \<and> contains (ascii_lower (join [CHR 0x0A] ([''The context window is full''] @ []))) ''context window''
 \<and> yields (run_stream_impl (scenario_world [Out ''The context window is full'', OutEof, ErrEof])
             resumed_provider (scenario_args ''chat-1'' True) 0)
     = [Own (Debug_cmd (build_cmd (scenario_world [Out ''The context window is full'', OutEof, ErrEof])
                          resumed_provider [] ''s-0'')),
        Stdout ''The context window is full'']
 \<and> ending (run_stream_impl (scenario_world [Out ''The context window is full'', OutEof, ErrEof])
             resumed_provider (scenario_args ''chat-1'' True) 0) = Returns
 \<and> filter error_event
      (yields (run_stream_impl (scenario_world [Out ''The context window is full'', OutEof, ErrEof])
                 resumed_provider (scenario_args ''chat-1'' True) 0)) = []"
proof -
  let ?w = "scenario_world [Out ''The context window is full'', OutEof, ErrEof]"
  let ?a = "scenario_args ''chat-1'' True"
  let ?P = resumed_provider
  have rt: "is_retry ?a" and ch: "chat_id ?a = ''chat-1''" and md: "model ?a = []"
    by (simp_all add: scenario_args_def)
  have cs: "claude_session_of ?P ''chat-1'' = ''s-0''"
    by (simp add: claude_session_of_def resumed_provider_def)
  have pt: "''context window'' \<in> set PROMPT_TOO_LONG_PATTERNS"
    by (simp add: PROMPT_TOO_LONG_PATTERNS_def)
  have lo: "ascii_lower ''The context window is full'' = ''the context window is full''"
    by (simp add: ascii_lower_def)
  have co: "contains (ascii_lower (join [CHR 0x0A] ([''The context window is full''] @ [])))
              ''context window''"
    by (simp add: lo startswith_def)
  have nl: "scenario_loads ''The context window is full'' = JSONDecodeError"
    by (simp add: scenario_loads_def result_line_def)
  have sp: "spawn (attempts ?w 0) = Spawned" and wr: "stdin_write (attempts ?w 0) = Returned ()"
    and ar: "arrivals (attempts ?w 0) = [Out ''The context window is full'', OutEof] @ ErrEof # []"
    and jl: "json_loads ?w = scenario_loads"
    by (simp_all add: scenario_world_def)
  have fa: "finishes_after (json_loads ?w) [Out ''The context window is full'', OutEof] ErrEof"
    by (simp add: finishes_after_def dequeues_all_def jl nl)
  note p = retry_not_too_long [OF rt, of ?w "claude_session_of ?P (chat_id ?a)" "after_loop ?w ?P ?a 0"]
  have y: "yields (run_stream_impl ?w ?P ?a 0)
     = [Own (Debug_cmd (build_cmd ?w ?P [] ''s-0'')), Stdout ''The context window is full'']"
    by (simp add: finished_run_yields(1) [OF sp wr ar fa p] ch cs md jl nl)
  have e: "ending (run_stream_impl ?w ?P ?a 0) = Returns"
    by (rule finished_run_yields(2) [OF sp wr ar fa p])
  show ?thesis
    using rt cs pt co e by (simp add: y)
qed

text \<open>
  Claim C6, amended. Recovery recurses at most once: any call spawns at most two
  subprocesses and runs at most one compaction, and a call marked as a retry spawns exactly
  one subprocess, runs no compaction and yields no recovery event, whatever its output
  holds. A retry whose loop ends normally ends as a plain run: it has yielded an error event
  for every non-empty stderr line and every stdout line as it is, and it closes with the
  no-stdout error event exactly when it saw no \<open>result\<close> event and no stdout line. (A
  signature that came on stdout only is therefore passed through without an error event.)
\<close>

theorem retry_never_recovers:
  "length (filter is_spawn (effects (run_stream_impl w P a n))) \<le> 2
 \<and> length (filter is_compact (effects (run_stream_impl w P a n))) \<le> 1
 \<and> (is_retry a \<longrightarrow>
      filter is_compact (effects (run_stream_impl w P a n)) = []
    \<and> filter is_spawn (effects (run_stream_impl w P a n))
        = [Spawn (build_cmd w P (model a) (claude_session_of P (chat_id a)))]
    \<and> filter recovery_event (yields (run_stream_impl w P a n)) = []
    \<and> (spawn (attempts w n) = Spawned \<and> stdin_write (attempts w n) = Returned u
       \<and> arrivals (attempts w n) = pre @ item # post \<and> finishes_after (json_loads w) pre item \<longrightarrow>
         yields (run_stream_impl w P a n)
           = Own (Debug_cmd (build_cmd w P (model a) (claude_session_of P (chat_id a))))
             # concat (map (yield_of (json_loads w)) pre)
             @ (if \<not> list_ex (is_result (json_loads w)) pre \<and> concat (map stdout_line pre) = []
                then [Own (Error_no_stdout (returncode (attempts w n))
                             (concat (map stderr_line pre)))]
                else [])
       \<and> ending (run_stream_impl w P a n) = Returns))"
proof (intro conjI impI)
  show "length (filter is_spawn (effects (run_stream_impl w P a n))) \<le> 2"
    and "length (filter is_compact (effects (run_stream_impl w P a n))) \<le> 1"
    using recovery_bounded [of w P a n] by simp_all
next
  assume rt: "is_retry a"
  show "filter is_compact (effects (run_stream_impl w P a n)) = []"
    by (rule retry_log(1) [OF rt])
  show "filter is_spawn (effects (run_stream_impl w P a n))
        = [Spawn (build_cmd w P (model a) (claude_session_of P (chat_id a)))]"
    by (rule retry_log(2) [OF rt])
  show "filter recovery_event (yields (run_stream_impl w P a n)) = []"
    by (rule retry_log(3) [OF rt])
  assume h: "spawn (attempts w n) = Spawned \<and> stdin_write (attempts w n) = Returned u
       \<and> arrivals (attempts w n) = pre @ item # post \<and> finishes_after (json_loads w) pre item"
  note p = retry_not_too_long [OF rt, of w "claude_session_of P (chat_id a)" "after_loop w P a n"]
  from h have sp: "spawn (attempts w n) = Spawned" and wr: "stdin_write (attempts w n) = Returned u"
    and ar: "arrivals (attempts w n) = pre @ item # post"
    and fa: "finishes_after (json_loads w) pre item"
    by simp_all
  show "yields (run_stream_impl w P a n)
           = Own (Debug_cmd (build_cmd w P (model a) (claude_session_of P (chat_id a))))
             # concat (map (yield_of (json_loads w)) pre)
             @ (if \<not> list_ex (is_result (json_loads w)) pre \<and> concat (map stdout_line pre) = []
                then [Own (Error_no_stdout (returncode (attempts w n))
                             (concat (map stderr_line pre)))]
                else [])"
    by (rule finished_run_yields(1) [OF sp wr ar fa p])
  show "ending (run_stream_impl w P a n) = Returns"
    by (rule finished_run_yields(2) [OF sp wr ar fa p])
qed

theorem retry_never_recovers_witness:
  "is_retry (scenario_args ''chat-1'' True)
 \<and> contains (ascii_lower (join [CHR 0x0A] ([] @ [''Error: prompt is too long'']))) ''prompt is too long''
 \<and> finishes_after scenario_loads [Err ''Error: prompt is too long'', OutEof] ErrEof
 \<and> filter is_compact
      (effects (run_stream_impl (scenario_world [Err ''Error: prompt is too long'', OutEof, ErrEof])
                  resumed_provider (scenario_args ''chat-1'' True) 0)) = []
 \<and> filter is_spawn
      (effects (run_stream_impl (scenario_world [Err ''Error: prompt is too long'', OutEof, ErrEof])
                  resumed_provider (scenario_args ''chat-1'' True) 0))
     = [Spawn (build_cmd (scenario_world [Err ''Error: prompt is too long'', OutEof, ErrEof])
                 resumed_provider [] ''s-0'')]
 \<and> yields (run_stream_impl (scenario_world [Err ''Error: prompt is too long'', OutEof, ErrEof])
             resumed_provider (scenario_args ''chat-1'' True) 0)
     = [Own (Debug_cmd (build_cmd (scenario_world [Err ''Error: prompt is too long'', OutEof, ErrEof])
                          resumed_provider [] ''s-0'')),
        Own (Error_stderr ''Error: prompt is too long''),
        Own (Error_no_stdout 0 [''Error: prompt is too long''])]"
proof -
  let ?w = "scenario_world [Err ''Error: prompt is too long'', OutEof, ErrEof]"
  let ?a = "scenario_args ''chat-1'' True"
  let ?P = resumed_provider
  have rt: "is_retry ?a" and ch: "chat_id ?a = ''chat-1''" and md: "model ?a = []"
    by (simp_all add: scenario_args_def)
  have cs: "claude_session_of ?P ''chat-1'' = ''s-0''"
    by (simp add: claude_session_of_def resumed_provider_def)
  have lo: "ascii_lower ''Error: prompt is too long'' = ''error: prompt is too long''"
    by (simp add: ascii_lower_def)
  have co: "contains (ascii_lower (join [CHR 0x0A] ([] @ [''Error: prompt is too long''])))
              ''prompt is too long''"
    by (simp add: lo startswith_def)
  have sp: "spawn (attempts ?w 0) = Spawned" and wr: "stdin_write (attempts ?w 0) = Returned ()"
    and ar: "arrivals (attempts ?w 0) = [Err ''Error: prompt is too long'', OutEof] @ ErrEof # []"
    and jl: "json_loads ?w = scenario_loads" and rc: "returncode (attempts ?w 0) = 0"
    by (simp_all add: scenario_world_def)
  have fa: "finishes_after scenario_loads [Err ''Error: prompt is too long'', OutEof] ErrEof"
    by (simp add: finishes_after_def dequeues_all_def)
  have h: "spawn (attempts ?w 0) = Spawned \<and> stdin_write (attempts ?w 0) = Returned ()
       \<and> arrivals (attempts ?w 0) = [Err ''Error: prompt is too long'', OutEof] @ ErrEof # []
       \<and> finishes_after (json_loads ?w) [Err ''Error: prompt is too long'', OutEof] ErrEof"
    using sp wr ar fa jl by simp
  note t = retry_never_recovers [of ?w ?P ?a 0 "()" "[Err ''Error: prompt is too long'', OutEof]"
             ErrEof "[]", THEN conjunct2, THEN conjunct2, THEN mp, OF rt]
  have c1: "filter is_compact (effects (run_stream_impl ?w ?P ?a 0)) = []"
    using t [THEN conjunct1] .
  have c2: "filter is_spawn (effects (run_stream_impl ?w ?P ?a 0))
            = [Spawn (build_cmd ?w ?P [] ''s-0'')]"
    using t [THEN conjunct2, THEN conjunct1] by (simp add: ch md cs)
  have c3: "yields (run_stream_impl ?w ?P ?a 0)
     = [Own (Debug_cmd (build_cmd ?w ?P [] ''s-0'')),
        Own (Error_stderr ''Error: prompt is too long''),
        Own (Error_no_stdout 0 [''Error: prompt is too long''])]"
    using t [THEN conjunct2, THEN conjunct2, THEN conjunct2, THEN mp, OF h, THEN conjunct1]
    by (simp add: ch md cs rc jl)
  show ?thesis
    using rt co fa c1 c2 c3 by simp
qed




text \<open>
  Claim C9, as stated, fails: a stderr line can be swallowed. In the first run the
  subprocess prints a stdout line and an empty stderr line and ends; in the second it
  prints a stderr line after the run was cancelled. Neither run yields an error event.
\<close>

theorem stderr_swallowed_counterexample:
  "Err [] \<in> set (arrivals (attempts (scenario_world [Out ''working'', Err [], OutEof, ErrEof]) 0))
 \<and> yields (run_stream_impl (scenario_world [Out ''working'', Err [], OutEof, ErrEof])
             (new_provider True) (scenario_args ''chat-1'' False) 0)
     = [Own (Debug_cmd (build_cmd (scenario_world [Out ''working'', Err [], OutEof, ErrEof])
                          (new_provider True) [] [])),
        Stdout ''working'']
 \<and> Err ''fatal: late''
     \<in> set (arrivals (attempts (scenario_world [Out ''working'', Cancel, Err ''fatal: late'', ErrEof, OutEof]) 0))
 \<and> yields (run_stream_impl (scenario_world [Out ''working'', Cancel, Err ''fatal: late'', ErrEof, OutEof])
             (new_provider True) (scenario_args ''chat-1'' False) 0)
     = [Own (Debug_cmd (build_cmd (scenario_world [Out ''working'', Cancel, Err ''fatal: late'', ErrEof, OutEof])
                          (new_provider True) [] [])),
        Stdout ''working'', Own Cancelled]"
proof -
  let ?w1 = "scenario_world [Out ''working'', Err [], OutEof, ErrEof]"
  let ?w2 = "scenario_world [Out ''working'', Cancel, Err ''fatal: late'', ErrEof, OutEof]"
  let ?a = "scenario_args ''chat-1'' False"
  have cs: "claude_session_of (new_provider True) (chat_id ?a) = []" and md: "model ?a = []"
    by (simp_all add: claude_session_of_def new_provider_def scenario_args_def)
  have nl: "scenario_loads ''working'' = JSONDecodeError"
    by (simp add: scenario_loads_def result_line_def)
  have sp1: "spawn (attempts ?w1 0) = Spawned" and wr1: "stdin_write (attempts ?w1 0) = Returned ()"
    and ar1: "arrivals (attempts ?w1 0) = [Out ''working'', Err [], OutEof] @ ErrEof # []"
    and jl1: "json_loads ?w1 = scenario_loads"
    by (simp_all add: scenario_world_def)
  have f1: "finishes_after (json_loads ?w1) [Out ''working'', Err [], OutEof] ErrEof"
    by (simp add: finishes_after_def dequeues_all_def jl1 nl)
  have p1: "\<not> prompt_too_long ?w1 ?a (claude_session_of (new_provider True) (chat_id ?a))
                (after_loop ?w1 (new_provider True) ?a 0)"
    by (simp add: prompt_too_long_def cs)
  have y1: "yields (run_stream_impl ?w1 (new_provider True) ?a 0)
     = [Own (Debug_cmd (build_cmd ?w1 (new_provider True) [] [])), Stdout ''working'']"
    by (simp add: finished_run_yields(1) [OF sp1 wr1 ar1 f1 p1] cs md jl1 nl)
  have sp2: "spawn (attempts ?w2 0) = Spawned" and wr2: "stdin_write (attempts ?w2 0) = Returned ()"
    and ar2: "arrivals (attempts ?w2 0) = [Out ''working''] @ Cancel # [Err ''fatal: late'', ErrEof, OutEof]"
    and jl2: "json_loads ?w2 = scenario_loads"
    by (simp_all add: scenario_world_def)
  have d2: "dequeues_all (json_loads ?w2) [Out ''working'']"
    by (simp add: dequeues_all_def jl2 nl)
  have y2: "yields (run_stream_impl ?w2 (new_provider True) ?a 0)
     = [Own (Debug_cmd (build_cmd ?w2 (new_provider True) [] [])), Stdout ''working'', Own Cancelled]"
    by (simp add: cancelled_run_facts(1) [OF sp2 wr2 ar2 d2] cs md jl2 nl)
  show ?thesis
    using y1 y2 by (simp add: scenario_world_def)
qed

text \<open>
  Claim C9, amended. Every non-empty stderr line that the consuming loop dequeues, that is,
  every one that reaches the queue before the loop has ended, is yielded as an error event
  of the run, in its place among the lines yielded for the items dequeued before it. (An
  empty line is skipped, and what reaches the queue after a cancel sentinel is not read.)
\<close>

theorem dequeued_stderr_line_is_emitted:
  assumes "spawn (attempts w n) = Spawned" and "stdin_write (attempts w n) = Returned u"
      and "arrivals (attempts w n) = pre @ Err line # post"
      and "dequeues_all (json_loads w) pre" and "line \<noteq> []"
  shows "\<exists>rest. yields (run_stream_impl w P a n)
           = Own (Debug_cmd (build_cmd w P (model a) (claude_session_of P (chat_id a))))
             # concat (map (yield_of (json_loads w)) pre) @ Own (Error_stderr line) # rest"
proof -
  let ?st = "feed (json_loads w) (chat_id a) (start_state w P a) pre"
  let ?st1 = "?st\<lparr>stderr_lines := stderr_lines ?st @ [line],
                   yielded := yielded ?st @ [Own (Error_stderr line)]\<rparr>"
  have lr: "loop_run w P a n = consume (json_loads w) (chat_id a) ?st1 post"
    using loop_run_split [OF assms(3,4), of P a] assms(5) by simp
  from consume_yielded [of "json_loads w" "chat_id a" ?st1 post] obtain more where
    "yielded (snd (loop_run w P a n)) = yielded ?st1 @ more"
    by (auto simp: lr)
  moreover
  from run_extends_loop [OF assms(1,2), of P a] obtain ys where
    "yields (run_stream_impl w P a n) = yielded (snd (loop_run w P a n)) @ ys"
    by auto
  ultimately show ?thesis
    by (simp add: feed_yielded)
qed

theorem dequeued_stderr_line_is_emitted_witness:
  "dequeues_all scenario_loads [Out ''working'', Err []]
 \<and> (\<exists>rest. yields (run_stream_impl (scenario_world [Out ''working'', Err [], Err ''warning: slow'', OutEof, ErrEof])
                     (new_provider True) (scenario_args ''chat-1'' False) 0)
      = Own (Debug_cmd (build_cmd (scenario_world [Out ''working'', Err [], Err ''warning: slow'', OutEof, ErrEof])
                          (new_provider True) [] []))
        # Stdout ''working'' # Own (Error_stderr ''warning: slow'') # rest)"
proof -
  let ?w = "scenario_world [Out ''working'', Err [], Err ''warning: slow'', OutEof, ErrEof]"
  let ?a = "scenario_args ''chat-1'' False"
  have cs: "claude_session_of (new_provider True) (chat_id ?a) = []" and md: "model ?a = []"
    by (simp_all add: claude_session_of_def new_provider_def scenario_args_def)
  have nl: "scenario_loads ''working'' = JSONDecodeError"
    by (simp add: scenario_loads_def result_line_def)
  have sp: "spawn (attempts ?w 0) = Spawned" and wr: "stdin_write (attempts ?w 0) = Returned ()"
    and ar: "arrivals (attempts ?w 0) = [Out ''working'', Err []] @ Err ''warning: slow'' # [OutEof, ErrEof]"
    and jl: "json_loads ?w = scenario_loads"
    by (simp_all add: scenario_world_def)
  have dq: "dequeues_all scenario_loads [Out ''working'', Err []]"
    by (simp add: dequeues_all_def nl)
  have dq': "dequeues_all (json_loads ?w) [Out ''working'', Err []]"
    using dq jl by simp
  have ne: "''warning: slow'' \<noteq> []" by simp
  from dequeued_stderr_line_is_emitted [OF sp wr ar dq' ne, of "new_provider True" ?a]
  have "\<exists>rest. yields (run_stream_impl ?w (new_provider True) ?a 0)
      = Own (Debug_cmd (build_cmd ?w (new_provider True) [] []))
        # Stdout ''working'' # Own (Error_stderr ''warning: slow'') # rest"
    by (simp add: cs md jl nl)
  with dq show ?thesis by simp
qed

end
